theory Spec2Isabelle
  imports Complex_Main
begin

section \<open>EL Zone System engine of StillGen (el\_zone.py)\<close>

text \<open>
  The engine computes on NumPy floating-point arrays. The embedding below works over
  the real numbers: every float of the source is a \<^typ>\<open>real\<close>, \<open>2 ** x\<close> and
  \<open>np.power\<close> with a positive base are \<^const>\<open>powr\<close>, Python integers are
  \<^typ>\<open>int\<close>. The zone table, the decode curves and the compositor are modelled in
  exact arithmetic; the conversion of the input image, the vectorscope and the waveform
  carry the rounding of their floating-point operations as a parameter (\<open>rounding\<close>
  below). Arrays are functions from a position to a value, so that a statement about
  "every pixel" is a statement about every position. Python's exceptions are values of
  the type \<open>py_error\<close>.
\<close>

datatype py_error = IndexError | ValueError | ZeroDivisionError | AttributeError

type_synonym rgb = "real \<times> real \<times> real"

subsection \<open>Python and NumPy primitives\<close>

text \<open>List indexing \<open>xs[i]\<close>: a negative index counts from the end, an index out of range raises.\<close>

definition py_index :: "'a list \<Rightarrow> int \<Rightarrow> py_error + 'a" where
  "py_index xs i =
     (if 0 \<le> i \<and> i < int (length xs) then Inr (xs ! nat i)
      else if - int (length xs) \<le> i \<and> i < 0 then Inr (xs ! nat (i + int (length xs)))
      else Inl IndexError)"

text \<open>\<open>int(x)\<close> and \<open>.astype(int)\<close> on a float: truncation towards zero.\<close>

definition py_int :: "real \<Rightarrow> int" where
  "py_int x = (if 0 \<le> x then \<lfloor>x\<rfloor> else \<lceil>x\<rceil>)"

text \<open>\<open>np.clip(x, lo, hi)\<close> is \<open>minimum(maximum(x, lo), hi)\<close>; \<open>np.clip(x, lo, None)\<close> has no upper bound.\<close>

definition np_clip :: "real \<Rightarrow> real \<Rightarrow> real \<Rightarrow> real" where
  "np_clip x lo hi = min (max x lo) hi"

definition np_clip_low :: "real \<Rightarrow> real \<Rightarrow> real" where
  "np_clip_low x lo = max x lo"

text \<open>
  Where a claim depends on floating-point rounding, every arithmetic operation of the
  source is followed by a rounding function that is a parameter of the model: \<open>fl\<close> for
  the operations on \<open>float32\<close> arrays, \<open>fs\<close> for the operations on NumPy scalars
  (\<open>float32\<close> or \<open>float64\<close>, depending on the NumPy version) and \<open>fd\<close> for Python's own
  \<open>float64\<close> arithmetic. \<open>rounding\<close> collects what round-to-nearest gives at either
  precision, overflow aside: it is monotone, it leaves the integers up to \<open>2 ** 24\<close> as
  they are, and its error is at most \<open>2 ** -24\<close> relative plus \<open>2 ** -150\<close> absolute.
\<close>

definition rounding :: "(real \<Rightarrow> real) \<Rightarrow> bool" where
  "rounding fl =
     ((\<forall>x y. x \<le> y \<longrightarrow> fl x \<le> fl y) \<and>
      (\<forall>n::int. \<bar>n\<bar> \<le> 16777216 \<longrightarrow> fl (of_int n) = of_int n) \<and>
      (\<forall>x. \<bar>x\<bar> \<le> 2 ^ 127 \<longrightarrow> \<bar>fl x - x\<bar> \<le> \<bar>x\<bar> / 16777216 + 1 / 2 ^ 150))"

subsection \<open>Arrays and the conversion of the input image\<close>

text \<open>
  An array has a shape and a sample at every index; only the indices inside the shape
  are meaningful. \<open>indices\<close> lists them in row-major order.
\<close>

record ndarray =
  arr_shape :: "nat list"
  elem :: "nat list \<Rightarrow> real"

definition in_shape :: "nat list \<Rightarrow> nat list \<Rightarrow> bool" where
  "in_shape s i = list_all2 (<) i s"

fun indices :: "nat list \<Rightarrow> nat list list" where
  "indices [] = [Nil]"
| "indices (n # ns) = concat (map (\<lambda>k. map ((#) k) (indices ns)) [0 ..< n])"

definition map_array :: "(real \<Rightarrow> real) \<Rightarrow> ndarray \<Rightarrow> ndarray" where
  "map_array f a = a\<lparr>elem := (\<lambda>i. if in_shape (arr_shape a) i then f (elem a i) else elem a i)\<rparr>"

text \<open>\<open>a.max()\<close>: a reduction over an array with no element raises \<open>ValueError\<close>.\<close>

definition array_max :: "ndarray \<Rightarrow> py_error + real" where
  "array_max a =
     (case map (elem a) (indices (arr_shape a)) of
        [] \<Rightarrow> Inl ValueError
      | x # xs \<Rightarrow> Inr (fold max xs x))"

text \<open>\<open>a[..., :3]\<close>: the first three entries of the last axis.\<close>

definition first_three :: "ndarray \<Rightarrow> ndarray" where
  "first_three a = a\<lparr>arr_shape := butlast (arr_shape a) @ [min 3 (last (arr_shape a))]\<rparr>"

definition const_array :: "nat list \<Rightarrow> real \<Rightarrow> ndarray" where
  "const_array shp v = \<lparr>arr_shape = shp, elem = (\<lambda>i. v)\<rparr>"

text \<open>
  The input of the engine is a PIL image or a NumPy array. A PIL image is given by its
  mode and by the array of 8-bit samples that \<open>np.array(image)\<close> returns; its
  \<open>convert('RGB')\<close> from \<open>RGBA\<close> drops the alpha channel.
\<close>

datatype image = PIL_Image string ndarray | Ndarray ndarray

text \<open>
  The conversion with which \<open>create_el_zone_map\<close>, \<open>create_vectorscope\<close> and
  \<open>create_waveform\<close> begin: the cast to \<open>float32\<close>, the division of a PIL image by 255,
  the division of an array by 255 when its maximum exceeds \<open>1.0\<close>, and the drop of a
  fourth channel. \<open>shape[-1]\<close> of an array with no axis raises \<open>IndexError\<close>.
\<close>

definition image_to_array :: "(real \<Rightarrow> real) \<Rightarrow> image \<Rightarrow> py_error + ndarray" where
  "image_to_array fl img =
     (case img of
        PIL_Image mode samples \<Rightarrow>
          Inr (map_array (\<lambda>x. fl (fl x / 255))
                 (if mode = ''RGBA'' then first_three samples else samples))
      | Ndarray samples \<Rightarrow>
          let img_array = map_array fl samples in
          (case array_max img_array of Inl e \<Rightarrow> Inl e
           | Inr m \<Rightarrow>
               let img_array = (if m > 1 then map_array (\<lambda>x. fl (x / 255)) img_array
                                else img_array)
               in if arr_shape img_array = [] then Inl IndexError
                  else if last (arr_shape img_array) = 4 then Inr (first_three img_array)
                  else Inr img_array))"

text \<open>
  An array that the conversion leaves as it is: every sample is a \<open>float32\<close> value
  (the rounding does not change it) and at most \<open>1.0\<close>.
\<close>

definition unit_float_array :: "(real \<Rightarrow> real) \<Rightarrow> ndarray \<Rightarrow> bool" where
  "unit_float_array fl a = (\<forall>i. in_shape (arr_shape a) i \<longrightarrow> fl (elem a i) = elem a i \<and> elem a i \<le> 1)"

definition all_zero :: "ndarray \<Rightarrow> bool" where
  "all_zero a = (\<forall>i. in_shape (arr_shape a) i \<longrightarrow> elem a i = 0)"

subsection \<open>Constants\<close>

definition STOPS_LIST :: "real list" where
  "STOPS_LIST = [-7, -6, -5, -4, -3, -2, -1, -0.5, 0, 0.5, 1, 2, 3, 4, 5, 6, 7]"

definition COLOR_LIST_8BIT :: "(real \<times> real \<times> real) list" where
  "COLOR_LIST_8BIT =
    [(3, 3, 3), (98, 71, 155), (158, 126, 184), (24, 116, 167), (39, 174, 228),
     (27, 168, 75), (93, 187, 71), (148, 200, 64), (144, 140, 135), (251, 232, 0),
     (255, 248, 166), (244, 112, 42), (247, 170, 71), (239, 28, 38), (229, 126, 140),
     (243, 190, 192), (255, 255, 255)]"

definition GRAY18 :: real where
  "GRAY18 = 0.18"

definition EXP_RANGE :: real where
  "EXP_RANGE = 7"

subsection \<open>Display colours (\<open>ELZoneProcessor.__init__\<close>)\<close>

definition srgb_eotf :: "real \<Rightarrow> real" where
  "srgb_eotf x = (if x \<le> 0.04045 then x / 12.92 else ((x + 0.055) / 1.055) powr 2.4)"

definition map_rgb :: "(real \<Rightarrow> real) \<Rightarrow> rgb \<Rightarrow> rgb" where
  "map_rgb f c = (case c of (r, g, b) \<Rightarrow> (f r, f g, f b))"

definition color_list_8bit :: "rgb list" where
  "color_list_8bit = COLOR_LIST_8BIT"

definition color_list_linear :: "rgb list" where
  "color_list_linear = map (map_rgb (\<lambda>x. srgb_eotf (x / 255))) color_list_8bit"

definition color_list_display :: "rgb list" where
  "color_list_display = map (map_rgb (\<lambda>x. x powr (1 / 2.4))) color_list_linear"

subsection \<open>Zone classification (\<open>map_luminance_to_zones\<close>)\<close>

text \<open>
  One iteration of the loop over \<open>enumerate(STOPS_LIST)\<close> first computes the pair
  \<open>(low_stops, high_stops)\<close>; the reads of the neighbouring stops are Python list reads.
\<close>

definition zone_stops :: "nat \<Rightarrow> py_error + (real \<times> real)" where
  "zone_stops idx =
     (let stops = STOPS_LIST ! idx in
      if stops = - EXP_RANGE then
        (case py_index STOPS_LIST (int idx + 1) of Inl e \<Rightarrow> Inl e | Inr nxt \<Rightarrow>
           let upper_diff = nxt - stops in Inr (-20, stops + upper_diff / 2))
      else if stops = EXP_RANGE then
        (case py_index STOPS_LIST (int idx - 1) of Inl e \<Rightarrow> Inl e | Inr prv \<Rightarrow>
           let lower_diff = stops - prv in Inr (stops - lower_diff / 2, 20))
      else
        (case py_index STOPS_LIST (int idx + 1) of Inl e \<Rightarrow> Inl e | Inr nxt \<Rightarrow>
           (case py_index STOPS_LIST (int idx - 1) of Inl e \<Rightarrow> Inl e | Inr prv \<Rightarrow>
              let upper_diff = nxt - stops; lower_diff = stops - prv
              in Inr (stops - lower_diff / 2, stops + upper_diff / 2))))"

text \<open>The linear boundaries \<open>(low_value, high_value)\<close> of the zone with index \<open>idx\<close>.\<close>

definition zone_values :: "nat \<Rightarrow> py_error + (real \<times> real)" where
  "zone_values idx =
     (case zone_stops idx of Inl e \<Rightarrow> Inl e
      | Inr (low_stops, high_stops) \<Rightarrow>
          Inr (GRAY18 * 2 powr low_stops, GRAY18 * 2 powr high_stops))"

text \<open>\<open>zone_mask\<close> at one luminance value: \<open>(low_value <= y) & (y < high_value)\<close>.\<close>

definition zone_mask :: "nat \<Rightarrow> real \<Rightarrow> bool" where
  "zone_mask idx y =
     (case zone_values idx of Inl e \<Rightarrow> False
      | Inr (low_value, high_value) \<Rightarrow> low_value \<le> y \<and> y < high_value)"

text \<open>
  The loop body on the whole array: \<open>out_colors[zone_mask] = color_list_display[idx]\<close>
  overwrites the positions of the mask and leaves the others as they are.
\<close>

definition zone_iter :: "('p \<Rightarrow> real) \<Rightarrow> nat \<Rightarrow> ('p \<Rightarrow> rgb) \<Rightarrow> py_error + ('p \<Rightarrow> rgb)" where
  "zone_iter linear_y idx out_colors =
     (case zone_values idx of Inl e \<Rightarrow> Inl e
      | Inr (low_value, high_value) \<Rightarrow>
         (case py_index color_list_display (int idx) of Inl e \<Rightarrow> Inl e
          | Inr col \<Rightarrow>
              Inr (\<lambda>p. if low_value \<le> linear_y p \<and> linear_y p < high_value
                       then col else out_colors p)))"

fun zone_loop :: "('p \<Rightarrow> real) \<Rightarrow> nat list \<Rightarrow> ('p \<Rightarrow> rgb) \<Rightarrow> py_error + ('p \<Rightarrow> rgb)" where
  "zone_loop linear_y [] out_colors = Inr out_colors"
| "zone_loop linear_y (idx # rest) out_colors =
     (case zone_iter linear_y idx out_colors of Inl e \<Rightarrow> Inl e
      | Inr out' \<Rightarrow> zone_loop linear_y rest out')"

definition map_luminance_to_zones :: "('p \<Rightarrow> real) \<Rightarrow> py_error + ('p \<Rightarrow> rgb)" where
  "map_luminance_to_zones linear_y =
     zone_loop linear_y [0 ..< length STOPS_LIST] (\<lambda>p. (0, 0, 0))"

text \<open>
  The 18 boundaries, in stops, that the loop computes for the 17 zones; the table is
  proved equal to what \<open>zone_stops\<close> returns (lemma \<open>zone_stops_edges\<close>).
\<close>

definition zone_edges :: "real list" where
  "zone_edges = [-20, -6.5, -5.5, -4.5, -3.5, -2.5, -1.5, -0.75, -0.25, 0.25, 0.75, 1.5, 2.5, 3.5, 4.5, 5.5, 6.5, 20]"

text \<open>The indices of the zones whose mask holds elem a luminance value, in loop order.\<close>

definition zones_containing :: "real \<Rightarrow> nat list" where
  "zones_containing y = filter (\<lambda>idx. zone_mask idx y) [0 ..< length STOPS_LIST]"

subsection \<open>Log decoding (\<open>_get_decode_function\<close> and the decode functions)\<close>

text \<open>
  The decode functions act on every sample of an array on its own, so each is modelled
  on one sample. The optional \<open>colour\<close> library is outside this repository: it is a
  parameter, \<open>None\<close> when the import failed (\<open>HAS_COLOUR\<close> is false); each of its two
  functions is \<open>None\<close> when the attribute is missing.
\<close>

record colour_models =
  log_decoding_ARRILogC4 :: "(real \<Rightarrow> real) option"
  log_decoding_SLog3 :: "(real \<Rightarrow> real) option"

definition log_decoding_apple_log_fallback :: "real \<Rightarrow> real" where
  "log_decoding_apple_log_fallback x = 10 powr ((x - 0.3584) / 0.2471)"

definition log_decoding_redlog3_fallback :: "real \<Rightarrow> real" where
  "log_decoding_redlog3_fallback x =
     (let a = 0.224282; c = 0.01;
          linear = (if x \<ge> c then 10 powr ((x * 1023 - 685) / 300) / 1023 else x * a)
      in np_clip_low linear 0)"

definition log_decoding_logc4_accurate :: "real \<Rightarrow> real" where
  "log_decoding_logc4_accurate x =
     (let a = 0.0647954196341293; b = 0.0799017958419154;
          c = 0.0851858618842153; d = 0.0562935137369496;
          linear = (if x > c then 10 powr ((x - d) / a) - b / a else (x - c) / b)
      in np_clip_low linear 0)"

definition log_decoding_fallback :: "real \<Rightarrow> real" where
  "log_decoding_fallback x = 2 powr ((x - 0.5) * 14)"

text \<open>
  \<open>_get_decode_function\<close>: the result \<open>None\<close> is Python's \<open>None\<close> (no decoding). Reading
  a missing attribute of the library raises \<open>AttributeError\<close>, which the \<open>logc4\<close> branch
  catches and the \<open>slog3\<close> branch does not.
\<close>

definition get_decode_function ::
    "colour_models option \<Rightarrow> string \<Rightarrow> py_error + (real \<Rightarrow> real) option" where
  "get_decode_function colour log_format =
     (if log_format = ''linear'' then Inr None
      else if log_format = ''logc4'' then
        (case colour of
           Some models \<Rightarrow>
             (case log_decoding_ARRILogC4 models of
                Some f \<Rightarrow> Inr (Some f)
              | None \<Rightarrow> Inr (Some log_decoding_logc4_accurate))
         | None \<Rightarrow> Inr (Some log_decoding_logc4_accurate))
      else if log_format = ''slog3'' \<and> colour \<noteq> None then
        (case log_decoding_SLog3 (the colour) of
           Some f \<Rightarrow> Inr (Some f)
         | None \<Rightarrow> Inl AttributeError)
      else if log_format = ''apple_log'' then Inr (Some log_decoding_apple_log_fallback)
      else if log_format = ''redlog3'' then Inr (Some log_decoding_redlog3_fallback)
      else Inr (Some log_decoding_fallback))"

subsection \<open>The zone map of a frame (\<open>create_el_zone_map\<close>)\<close>

text \<open>
  \<open>create_el_zone_map\<close> converts its input to the float array \<open>img_array\<close>, decodes it
  and classifies its luminance. \<open>linear_image\<close> and \<open>create_el_zone_map\<close> below are the
  steps after the conversion, on an array of shape \<open>(h, w, 3)\<close> seen as a function from
  positions to RGB triples; \<open>linear_frame\<close> and \<open>create_el_zone_map_image\<close> start from
  the input image and are the whole function.
\<close>

definition rgb_to_y_bt2020 :: "rgb \<Rightarrow> real" where
  "rgb_to_y_bt2020 c = (case c of (r, g, b) \<Rightarrow> r * 0.2627 + g * 0.6780 + b * 0.0593)"

definition linear_image :: "(real \<Rightarrow> real) option \<Rightarrow> ('p \<Rightarrow> rgb) \<Rightarrow> ('p \<Rightarrow> rgb)" where
  "linear_image decode_func img_array =
     (case decode_func of
        Some f \<Rightarrow> (\<lambda>p. map_rgb f (img_array p))
      | None \<Rightarrow> img_array)"

definition create_el_zone_map ::
    "(real \<Rightarrow> real) option \<Rightarrow> ('p \<Rightarrow> rgb) \<Rightarrow> py_error + ('p \<Rightarrow> rgb)" where
  "create_el_zone_map decode_func img_array =
     (let linear = linear_image decode_func img_array;
          linear_y = (\<lambda>p. rgb_to_y_bt2020 (linear p))
      in map_luminance_to_zones linear_y)"

text \<open>
  The array bound to \<open>linear_image\<close>, from the input image: the converted array, decoded
  sample by sample when there is a decode function.
\<close>

definition linear_frame ::
    "(real \<Rightarrow> real) \<Rightarrow> (real \<Rightarrow> real) option \<Rightarrow> image \<Rightarrow> py_error + ndarray" where
  "linear_frame fl decode_func img =
     (case image_to_array fl img of Inl e \<Rightarrow> Inl e
      | Inr img_array \<Rightarrow>
          Inr (case decode_func of Some f \<Rightarrow> map_array f img_array | None \<Rightarrow> img_array))"

text \<open>
  \<open>rgb_to_y_bt2020\<close> on an array: the weighted sum of the first three channels of a
  three-dimensional array (an \<open>IndexError\<close> when it has fewer), the array itself otherwise.
\<close>

definition luminance_array :: "ndarray \<Rightarrow> py_error + (nat list \<times> (nat list \<Rightarrow> real))" where
  "luminance_array a =
     (if length (arr_shape a) = 3 then
        (if arr_shape a ! 2 < 3 then Inl IndexError
         else Inr (butlast (arr_shape a),
                   \<lambda>i. rgb_to_y_bt2020 (elem a (i @ [0]), elem a (i @ [1]), elem a (i @ [2]))))
      else Inr (arr_shape a, elem a))"

definition create_el_zone_map_image ::
    "(real \<Rightarrow> real) \<Rightarrow> (real \<Rightarrow> real) option \<Rightarrow> image
       \<Rightarrow> py_error + (nat list \<times> (nat list \<Rightarrow> rgb))" where
  "create_el_zone_map_image fl decode_func img =
     (case linear_frame fl decode_func img of Inl e \<Rightarrow> Inl e
      | Inr linear_arr \<Rightarrow>
          (case luminance_array linear_arr of Inl e \<Rightarrow> Inl e
           | Inr (shp, linear_y) \<Rightarrow>
               (case map_luminance_to_zones linear_y of Inl e \<Rightarrow> Inl e
                | Inr el_zone_image \<Rightarrow> Inr (shp @ [3], el_zone_image))))"

subsection \<open>Array shapes in the compositor (\<open>create_4_quadrant_layout\<close>)\<close>

text \<open>
  The compositor is modelled on the shapes of its arrays: a shape is \<open>(rows, columns)\<close>,
  a size is \<open>(width, height)\<close> as in the source. Three facts about the libraries are used:
  PIL's \<open>resize\<close> raises \<open>ValueError\<close> unless both sizes are at least 1, \<open>np.zeros\<close> raises
  \<open>ValueError\<close> on a negative dimension, and a slice assignment raises \<open>ValueError\<close>
  unless the shape of the source can be broadcast to the shape of the slice.
\<close>

definition pil_resize :: "int \<times> int \<Rightarrow> py_error + (int \<times> int)" where
  "pil_resize new_size =
     (case new_size of (new_w, new_h) \<Rightarrow>
        if new_w < 1 \<or> new_h < 1 then Inl ValueError else Inr (new_h, new_w))"

definition np_zeros :: "int \<times> int \<Rightarrow> py_error + (int \<times> int)" where
  "np_zeros shape =
     (case shape of (rows, cols) \<Rightarrow>
        if rows < 0 \<or> cols < 0 then Inl ValueError else Inr (rows, cols))"

text \<open>The number of indices that the slice \<open>[start:stop]\<close> selects on an axis of length \<open>n\<close>.\<close>

definition slice_bound :: "int \<Rightarrow> int \<Rightarrow> int" where
  "slice_bound n i = (if i < 0 then max (i + n) 0 else min i n)"

definition slice_len :: "int \<Rightarrow> int \<Rightarrow> int \<Rightarrow> int" where
  "slice_len n start stop = max 0 (slice_bound n stop - slice_bound n start)"

definition np_assign :: "int \<times> int \<Rightarrow> int \<times> int \<Rightarrow> py_error + unit" where
  "np_assign region source =
     (case region of (rr, rc) \<Rightarrow> case source of (sr, sc) \<Rightarrow>
        if (sr = rr \<or> sr = 1) \<and> (sc = rc \<or> sc = 1) then Inr () else Inl ValueError)"

definition resize_to_fill_width :: "int \<times> int \<Rightarrow> int \<times> int \<Rightarrow> py_error + (int \<times> int)" where
  "resize_to_fill_width shape target_size =
     (case shape of (h, w) \<Rightarrow> case target_size of (target_w, target_h) \<Rightarrow>
        if w = 0 then Inl ZeroDivisionError
        else
          let scale = real_of_int target_w / real_of_int w;
              new_w = target_w;
              new_h = py_int (real_of_int h * scale)
          in pil_resize (new_w, new_h))"

definition resize_to_fit :: "int \<times> int \<Rightarrow> int \<times> int \<Rightarrow> py_error + (int \<times> int)" where
  "resize_to_fit shape target_size =
     (case shape of (h, w) \<Rightarrow> case target_size of (target_w, target_h) \<Rightarrow>
        if w = 0 \<or> h = 0 then Inl ZeroDivisionError
        else
          let scale = min (real_of_int target_w / real_of_int w) (real_of_int target_h / real_of_int h);
              new_w = py_int (real_of_int w * scale);
              new_h = py_int (real_of_int h * scale)
          in (case pil_resize (new_w, new_h) of Inl e \<Rightarrow> Inl e | Inr resized \<Rightarrow>
               (case np_zeros (target_h, target_w) of Inl e \<Rightarrow> Inl e | Inr output \<Rightarrow>
                  let y_offset = (target_h - new_h) div 2;
                      x_offset = (target_w - new_w) div 2
                  in (case np_assign (slice_len target_h y_offset (y_offset + new_h),
                                      slice_len target_w x_offset (x_offset + new_w)) resized of
                        Inl e \<Rightarrow> Inl e
                      | Inr u \<Rightarrow> Inr output))))"

text \<open>
  The layout returns, in the model, the pair \<open>(top_image_height, bottom_height)\<close> when all
  four placements succeed. The labels are drawn afterwards and are not modelled.
\<close>

definition create_4_quadrant_layout ::
    "int \<times> int \<Rightarrow> int \<times> int \<Rightarrow> int \<times> int \<Rightarrow> int \<times> int \<Rightarrow> int \<times> int \<Rightarrow> py_error + (int \<times> int)" where
  "create_4_quadrant_layout original_image el_zone_image vectorscope waveform output_size =
     (case output_size of (out_w, out_h) \<Rightarrow>
      let quad_width = out_w div 2; quad_height = out_h div 2 in
      (case np_zeros (out_h, out_w) of Inl e \<Rightarrow> Inl e | Inr output \<Rightarrow>
      (case resize_to_fill_width original_image (quad_width, quad_height) of Inl e \<Rightarrow> Inl e
       | Inr orig_resized \<Rightarrow>
      (case resize_to_fill_width el_zone_image (quad_width, quad_height) of Inl e \<Rightarrow> Inl e
       | Inr el_zone_resized \<Rightarrow>
      let top_image_height = fst orig_resized;
          bottom_height = out_h - top_image_height in
      (case resize_to_fit vectorscope (quad_width, bottom_height) of Inl e \<Rightarrow> Inl e
       | Inr vectorscope_resized \<Rightarrow>
      (case resize_to_fit waveform (quad_width, bottom_height) of Inl e \<Rightarrow> Inl e
       | Inr waveform_resized \<Rightarrow>
      (case np_assign (slice_len out_h 0 top_image_height, slice_len out_w 0 quad_width)
              orig_resized of Inl e \<Rightarrow> Inl e | Inr u1 \<Rightarrow>
      (case np_assign (slice_len out_h 0 top_image_height, slice_len out_w quad_width out_w)
              el_zone_resized of Inl e \<Rightarrow> Inl e | Inr u2 \<Rightarrow>
      (case np_assign (slice_len out_h top_image_height out_h, slice_len out_w 0 quad_width)
              vectorscope_resized of Inl e \<Rightarrow> Inl e | Inr u3 \<Rightarrow>
      (case np_assign (slice_len out_h top_image_height out_h, slice_len out_w quad_width out_w)
              waveform_resized of Inl e \<Rightarrow> Inl e | Inr u4 \<Rightarrow>
         Inr (top_image_height, bottom_height)))))))))))"

subsection \<open>Vectorscope plotting (\<open>create_vectorscope\<close>)\<close>

text \<open>
  A frame is an array of shape \<open>(height, width, 3)\<close>: its two dimensions and the RGB
  triple at each row and column. A canvas is an array of 8-bit RGB triples, here a
  function from \<open>(row, column)\<close> to a triple of naturals below 256, of the shape that the
  size \<open>(width, height)\<close> gives it.
\<close>

record frame =
  height :: nat
  width :: nat
  px :: "nat \<Rightarrow> nat \<Rightarrow> rgb"

type_synonym pix = "nat \<times> nat \<times> nat"
type_synonym canvas = "int \<times> int \<Rightarrow> pix"

text \<open>An index into an axis of length \<open>n\<close> of a NumPy array.\<close>

definition np_index :: "int \<Rightarrow> int \<Rightarrow> py_error + int" where
  "np_index n i =
     (if 0 \<le> i \<and> i < n then Inr i
      else if - n \<le> i \<and> i < 0 then Inr (i + n)
      else Inl IndexError)"

text \<open>\<open>range(0, n, step)\<close> for a positive step.\<close>

definition py_range_step :: "nat \<Rightarrow> nat \<Rightarrow> nat list" where
  "py_range_step n step = map (\<lambda>k. k * step) [0 ..< (n + step - 1) div step]"

definition rgb_to_yuv :: "(real \<Rightarrow> real) \<Rightarrow> rgb \<Rightarrow> real \<times> real \<times> real" where
  "rgb_to_yuv fl c =
     (case c of (r, g, b) \<Rightarrow>
        (fl (fl (fl (fl 0.299 * r) + fl (fl 0.587 * g)) + fl (fl 0.114 * b)),
         fl (fl (fl (fl (- 0.14713) * r) - fl (fl 0.28886 * g)) + fl (fl 0.436 * b)),
         fl (fl (fl (fl 0.615 * r) - fl (fl 0.51499 * g)) - fl (fl 0.10001 * b))))"

text \<open>
  The canvas position \<open>(x_coord, y_coord)\<close> at which one sampled pixel is plotted; \<open>None\<close>
  when its luma is not above the threshold \<open>0.01\<close>. The pixel's \<open>Y\<close>, \<open>U\<close> and \<open>V\<close> are NumPy
  scalars here, so the products with \<open>scale\<close> and the sums with the centre are rounded
  by \<open>fs\<close>.
\<close>

definition vectorscope_coords ::
    "(real \<Rightarrow> real) \<Rightarrow> (real \<Rightarrow> real) \<Rightarrow> int \<times> int \<Rightarrow> rgb \<Rightarrow> (int \<times> int) option" where
  "vectorscope_coords fl fs canvas_size pixel =
     (case canvas_size of (size0, size1) \<Rightarrow>
      case rgb_to_yuv fl pixel of (pixel_y, pixel_u, pixel_v) \<Rightarrow>
        let center_x = size0 div 2; center_y = size1 div 2;
            scale = min size0 size1 div 3
        in if pixel_y > fs 0.01 then
             Some (py_int (np_clip (fs (real_of_int center_x + fs (pixel_v * real_of_int scale)))
                             0 (real_of_int (size0 - 1))),
                   py_int (np_clip (fs (real_of_int center_y - fs (pixel_u * real_of_int scale)))
                             0 (real_of_int (size1 - 1))))
           else None)"

text \<open>\<open>np.clip(current_vals + [80, 80, 80], 0, 255)\<close> on an 8-bit triple.\<close>

definition add_intensity :: "pix \<Rightarrow> pix" where
  "add_intensity c = (case c of (r, g, b) \<Rightarrow> (min 255 (r + 80), min 255 (g + 80), min 255 (b + 80)))"

definition plot_sample ::
    "(real \<Rightarrow> real) \<Rightarrow> (real \<Rightarrow> real) \<Rightarrow> int \<times> int \<Rightarrow> rgb \<Rightarrow> canvas \<Rightarrow> py_error + canvas" where
  "plot_sample fl fs canvas_size pixel vectorscope =
     (case vectorscope_coords fl fs canvas_size pixel of
        None \<Rightarrow> Inr vectorscope
      | Some (x_coord, y_coord) \<Rightarrow>
          (case np_index (snd canvas_size) y_coord of Inl e \<Rightarrow> Inl e | Inr row \<Rightarrow>
          (case np_index (fst canvas_size) x_coord of Inl e \<Rightarrow> Inl e | Inr col \<Rightarrow>
             Inr (vectorscope ((row, col) := add_intensity (vectorscope (row, col)))))))"

fun plot_samples ::
    "(real \<Rightarrow> real) \<Rightarrow> (real \<Rightarrow> real) \<Rightarrow> int \<times> int \<Rightarrow> rgb list \<Rightarrow> canvas \<Rightarrow> py_error + canvas" where
  "plot_samples fl fs canvas_size [] vectorscope = Inr vectorscope"
| "plot_samples fl fs canvas_size (pixel # rest) vectorscope =
     (case plot_sample fl fs canvas_size pixel vectorscope of Inl e \<Rightarrow> Inl e
      | Inr vectorscope' \<Rightarrow> plot_samples fl fs canvas_size rest vectorscope')"

text \<open>The pixels that the two nested loops visit, in their order.\<close>

definition sampled_pixels :: "frame \<Rightarrow> rgb list" where
  "sampled_pixels f =
     (let x_sample_step = max 1 (width f div 50);
          y_sample_step = max 1 (height f div 50)
      in concat (map (\<lambda>img_y. map (\<lambda>img_x. px f img_y img_x)
                                  (py_range_step (width f) x_sample_step))
                     (py_range_step (height f) y_sample_step)))"

text \<open>
  The canvas of \<open>create_vectorscope\<close> after the plotting loop. The graticule is drawn
  on it afterwards and does not change where the loop has plotted.
\<close>

definition vectorscope_plot ::
    "(real \<Rightarrow> real) \<Rightarrow> (real \<Rightarrow> real) \<Rightarrow> frame \<Rightarrow> int \<times> int \<Rightarrow> py_error + canvas" where
  "vectorscope_plot fl fs f canvas_size =
     (case np_zeros (snd canvas_size, fst canvas_size) of Inl e \<Rightarrow> Inl e
      | Inr shape \<Rightarrow> plot_samples fl fs canvas_size (sampled_pixels f) (\<lambda>pos. (0, 0, 0)))"

subsection \<open>Waveform (\<open>create_waveform\<close> and \<open>_draw_waveform_grid\<close>)\<close>

text \<open>
  The waveform rounds in three places: \<open>fl\<close> for the operations on the \<open>float32\<close>
  arrays, \<open>fd\<close> for Python's \<open>float64\<close> arithmetic and for \<open>np.linspace\<close>. An integer
  that enters a float operation is taken as it is; at \<open>float32\<close> that is exact up to
  \<open>2 ** 24\<close>.

  \<open>np.linspace(0, stop, num, dtype=int)\<close>: the step \<open>stop / (num - 1)\<close> is computed once,
  every value but the last is its index times the step, the last is \<open>stop\<close> itself,
  and all are rounded down to integers.
\<close>

definition np_linspace_int :: "(real \<Rightarrow> real) \<Rightarrow> int \<Rightarrow> nat \<Rightarrow> int list" where
  "np_linspace_int fd stop num =
     (if num = 1 then [0]
      else map (\<lambda>i. if i = num - 1 then stop
                     else \<lfloor>fd (real i * fd (real_of_int stop / real (num - 1)))\<rfloor>)
             [0 ..< num])"

definition log_luminance :: "(real \<Rightarrow> real) \<Rightarrow> rgb \<Rightarrow> real" where
  "log_luminance fl c =
     (case c of (r, g, b) \<Rightarrow>
        fl (fl (fl (fl 0.2126 * r) + fl (fl 0.7152 * g)) + fl (fl 0.0722 * b)))"

text \<open>
  The row of one sampled luminance:
  \<open>((1 - np.clip(luma, 0, 1)) * (size[1] - 40) + 20).astype(int)\<close>, clipped to the rows
  of the canvas.
\<close>

definition waveform_y_position :: "(real \<Rightarrow> real) \<Rightarrow> int \<Rightarrow> real \<Rightarrow> int" where
  "waveform_y_position fl size1 luma =
     (let y_pos = py_int (fl (fl (fl (1 - np_clip luma 0 1) * real_of_int (size1 - 40)) + 20))
      in min (max y_pos 0) (size1 - 1))"

text \<open>The green trace: \<open>min(255, current + 16)\<close>, \<open>min(255, current + 80)\<close>, \<open>min(255, current + 16)\<close>.\<close>

definition trace_tint :: "pix \<Rightarrow> pix" where
  "trace_tint c = (case c of (r, g, b) \<Rightarrow> (min 255 (r + 16), min 255 (g + 80), min 255 (b + 16)))"

fun trace_column ::
    "(real \<Rightarrow> real) \<Rightarrow> int \<times> int \<Rightarrow> int \<Rightarrow> real list \<Rightarrow> canvas \<Rightarrow> py_error + canvas" where
  "trace_column fl canvas_size waveform_x [] waveform = Inr waveform"
| "trace_column fl canvas_size waveform_x (luma # rest) waveform =
     (let y_pos = waveform_y_position fl (snd canvas_size) luma in
      (case np_index (snd canvas_size) y_pos of Inl e \<Rightarrow> Inl e | Inr row \<Rightarrow>
      (case np_index (fst canvas_size) waveform_x of Inl e \<Rightarrow> Inl e | Inr col \<Rightarrow>
         trace_column fl canvas_size waveform_x rest
           (waveform ((row, col) := trace_tint (waveform (row, col)))))))"

text \<open>The luminances \<open>luma_column[::sample_step]\<close> of one column of the frame.\<close>

definition sampled_luma :: "(real \<Rightarrow> real) \<Rightarrow> frame \<Rightarrow> nat \<Rightarrow> real list" where
  "sampled_luma fl f col =
     (let sample_step = max 1 (height f div 200)
      in map (\<lambda>row. log_luminance fl (px f row col)) (py_range_step (height f) sample_step))"

text \<open>The loop over \<open>enumerate(x_positions)\<close>.\<close>

fun trace_columns ::
    "(real \<Rightarrow> real) \<Rightarrow> frame \<Rightarrow> int \<times> int \<Rightarrow> (nat \<times> int) list \<Rightarrow> canvas
       \<Rightarrow> py_error + canvas" where
  "trace_columns fl f canvas_size [] waveform = Inr waveform"
| "trace_columns fl f canvas_size ((waveform_x, img_x) # rest) waveform =
     (if int waveform_x \<ge> fst canvas_size then Inr waveform
      else
        (case np_index (int (width f)) img_x of Inl e \<Rightarrow> Inl e | Inr col \<Rightarrow>
           (case trace_column fl canvas_size (int waveform_x) (sampled_luma fl f (nat col))
                   waveform of
              Inl e \<Rightarrow> Inl e
            | Inr waveform' \<Rightarrow> trace_columns fl f canvas_size rest waveform')))"

text \<open>
  The frame that a three-dimensional array with at least three channels is, and the
  canvas of \<open>create_waveform\<close> after the trace loop, before the grid is drawn: an array
  of another dimension gets no trace, one with fewer than three channels raises
  \<open>IndexError\<close>.
\<close>

definition frame_of :: "ndarray \<Rightarrow> frame" where
  "frame_of a =
     \<lparr>height = arr_shape a ! 0, width = arr_shape a ! 1,
      px = (\<lambda>row col. (elem a [row, col, 0], elem a [row, col, 1], elem a [row, col, 2]))\<rparr>"

definition waveform_trace ::
    "(real \<Rightarrow> real) \<Rightarrow> (real \<Rightarrow> real) \<Rightarrow> ndarray \<Rightarrow> int \<times> int \<Rightarrow> py_error + canvas" where
  "waveform_trace fl fd log_image canvas_size =
     (if length (arr_shape log_image) = 3 then
        (if arr_shape log_image ! 2 < 3 then Inl IndexError
         else
           let w = int (arr_shape log_image ! 1);
               x_positions = np_linspace_int fd (w - 1) (nat (fst canvas_size))
           in trace_columns fl (frame_of log_image) canvas_size (enumerate 0 x_positions)
                (\<lambda>pos. (0, 0, 0)))
      else Inr (\<lambda>pos. (0, 0, 0)))"

text \<open>
  The grid overwrites rows and columns of the canvas. A row index is guarded by
  \<open>0 <= y < size[1]\<close>; a column index \<open>x\<close> is guarded by \<open>x < size[0]\<close> and is never
  negative; the slices \<open>[a:b]\<close> select the rows from \<open>slice_bound a\<close> up to \<open>slice_bound b\<close>.
\<close>

definition set_rows :: "int \<Rightarrow> int \<Rightarrow> pix \<Rightarrow> canvas \<Rightarrow> canvas" where
  "set_rows lo hi col waveform = (\<lambda>(r, c). if lo \<le> r \<and> r < hi then col else waveform (r, c))"

definition set_column :: "int \<Rightarrow> pix \<Rightarrow> canvas \<Rightarrow> canvas" where
  "set_column x col waveform = (\<lambda>(r, c). if c = x then col else waveform (r, c))"

definition grid_row_step :: "(real \<Rightarrow> real) \<Rightarrow> int \<times> int \<Rightarrow> real \<Rightarrow> canvas \<Rightarrow> canvas" where
  "grid_row_step fd canvas_size percent waveform =
     (let y = py_int (fd (real_of_int (snd canvas_size - 40) * fd (1 - fd (percent / 100)))) + 20
      in if 0 \<le> y \<and> y < snd canvas_size then set_rows y (y + 1) (48, 48, 48) waveform
         else waveform)"

definition grid_column_step :: "(real \<Rightarrow> real) \<Rightarrow> int \<times> int \<Rightarrow> int \<Rightarrow> canvas \<Rightarrow> canvas" where
  "grid_column_step fd canvas_size i waveform =
     (let x = py_int (fd (real_of_int (fst canvas_size * i) / 8))
      in if x < fst canvas_size then set_column x (32, 32, 32) waveform else waveform)"

definition grid_markers :: "(real \<Rightarrow> real) \<Rightarrow> int \<times> int \<Rightarrow> canvas \<Rightarrow> canvas" where
  "grid_markers fd canvas_size waveform =
     (let size1 = snd canvas_size;
          y_100 = 20;
          w1 = set_rows (slice_bound size1 y_100) (slice_bound size1 (y_100 + 2))
                 (160, 160, 160) waveform;
          y_75 = py_int (fd (real_of_int (size1 - 40) * fd 0.25)) + 20;
          w2 = set_rows (slice_bound size1 y_75) (slice_bound size1 (y_75 + 1)) (96, 96, 96) w1;
          y_50 = py_int (fd (real_of_int (size1 - 40) * fd 0.5)) + 20;
          w3 = set_rows (slice_bound size1 y_50) (slice_bound size1 (y_50 + 1)) (96, 96, 96) w2;
          y_18 = py_int (fd (real_of_int (size1 - 40) * fd 0.82)) + 20;
          w4 = set_rows (slice_bound size1 y_18) (slice_bound size1 (y_18 + 1)) (80, 80, 80) w3;
          y_0 = size1 - 20
      in set_rows (slice_bound size1 (y_0 - 2)) (slice_bound size1 y_0) (160, 160, 160) w4)"

definition draw_waveform_grid :: "(real \<Rightarrow> real) \<Rightarrow> int \<times> int \<Rightarrow> canvas \<Rightarrow> canvas" where
  "draw_waveform_grid fd canvas_size waveform =
     grid_markers fd canvas_size
       (fold (grid_column_step fd canvas_size) [1, 2, 3, 4, 5, 6, 7]
          (fold (grid_row_step fd canvas_size) [0, 25, 50, 75, 100] waveform))"

text \<open>\<open>waveform.astype(np.float32) / 255.0\<close> on one pixel.\<close>

definition to_unit_range :: "(real \<Rightarrow> real) \<Rightarrow> pix \<Rightarrow> rgb" where
  "to_unit_range fl c =
     (case c of (r, g, b) \<Rightarrow>
        (fl (fl (real r) / 255), fl (fl (real g) / 255), fl (fl (real b) / 255)))"

text \<open>
  \<open>create_waveform\<close>: the conversion of the input, the empty canvas, the trace, the
  grid. The result is the shape \<open>(rows, columns)\<close> of the returned image and its
  pixels.
\<close>

definition create_waveform ::
    "(real \<Rightarrow> real) \<Rightarrow> (real \<Rightarrow> real) \<Rightarrow> image \<Rightarrow> int \<times> int
       \<Rightarrow> py_error + ((int \<times> int) \<times> (int \<times> int \<Rightarrow> rgb))" where
  "create_waveform fl fd img canvas_size =
     (case image_to_array fl img of Inl e \<Rightarrow> Inl e
      | Inr log_image \<Rightarrow>
          (case np_zeros (snd canvas_size, fst canvas_size) of Inl e \<Rightarrow> Inl e
           | Inr canvas_shape \<Rightarrow>
               (case waveform_trace fl fd log_image canvas_size of Inl e \<Rightarrow> Inl e
                | Inr waveform \<Rightarrow>
                    Inr (canvas_shape,
                         \<lambda>pos. to_unit_range fl (draw_waveform_grid fd canvas_size waveform pos)))))"

text \<open>One pixel of the returned waveform image.\<close>

definition waveform_pixel ::
    "(real \<Rightarrow> real) \<Rightarrow> (real \<Rightarrow> real) \<Rightarrow> image \<Rightarrow> int \<times> int \<Rightarrow> int \<times> int \<Rightarrow> rgb option" where
  "waveform_pixel fl fd img canvas_size pos =
     (case create_waveform fl fd img canvas_size of
        Inl e \<Rightarrow> None
      | Inr (canvas_shape, pixels) \<Rightarrow> Some (pixels pos))"

text \<open>
  The canvas on which the row \<open>y\<close> holds, in the columns \<open>lo\<close> up to \<open>hi\<close>, the trace of
  \<open>n\<close> samples, and nothing else.
\<close>

definition traced_row :: "int \<Rightarrow> int \<Rightarrow> int \<Rightarrow> nat \<Rightarrow> canvas" where
  "traced_row y lo hi n =
     (\<lambda>(r, c). if r = y \<and> lo \<le> c \<and> c < hi
               then (min 255 (16 * n), min 255 (80 * n), min 255 (16 * n)) else (0, 0, 0))"

text \<open>An overlay paints the positions of a mask and leaves the others as they are.\<close>

definition overlay :: "(int \<times> int \<Rightarrow> pix option) \<Rightarrow> canvas \<Rightarrow> canvas" where
  "overlay m waveform = (\<lambda>pos. case m pos of Some col \<Rightarrow> col | None \<Rightarrow> waveform pos)"

text \<open>A pixel whose three channels are equal carries no tint.\<close>

definition gray_pix :: "pix \<Rightarrow> bool" where
  "gray_pix c = (case c of (r, g, b) \<Rightarrow> r = g \<and> g = b)"


section \<open>Properties\<close>

subsection \<open>The zone table\<close>

lemma lt17: "(idx::nat) < 17 \<longleftrightarrow> idx \<in> {0,1,2,3,4,5,6,7,8,9,10,11,12,13,14,15,16}"
  by (simp only: insert_iff empty_iff) arith

lemma zone_stops_edges:
  "idx < 17 \<Longrightarrow> zone_stops idx = Inr (zone_edges ! idx, zone_edges ! Suc idx)"
  unfolding lt17
  by (auto simp: zone_stops_def STOPS_LIST_def EXP_RANGE_def py_index_def zone_edges_def)


lemma zone_edges_sorted: "sorted_wrt (<) zone_edges"
  by (simp add: zone_edges_def)

lemma length_zone_edges: "length zone_edges = 18"
  by (simp add: zone_edges_def)

lemma length_STOPS_LIST: "length STOPS_LIST = 17"
  by (simp add: STOPS_LIST_def)

lemma zone_edges_mono: "i < j \<Longrightarrow> j < 18 \<Longrightarrow> zone_edges ! i < zone_edges ! j"
  using zone_edges_sorted by (simp add: sorted_wrt_nth_less length_zone_edges)

lemma GRAY18_pos: "0 < GRAY18"
  by (simp add: GRAY18_def)

lemma stops_le_iff: "0 < g \<Longrightarrow> 0 < y \<Longrightarrow> (g * 2 powr a \<le> y) = (a \<le> log 2 (y / g))"
proof -
  assume g: "0 < g" and y: "0 < y"
  have "(g * 2 powr a \<le> y) = (2 powr a \<le> y / g)"
    using g by (simp add: field_simps)
  also have "\<dots> = (a \<le> log 2 (y / g))"
    using y g by (simp add: le_log_iff)
  finally show ?thesis .
qed

lemma stops_less_iff: "0 < g \<Longrightarrow> 0 < y \<Longrightarrow> (y < g * 2 powr a) = (log 2 (y / g) < a)"
  using stops_le_iff [of g y a] by auto

lemma zone_values_edges:
  "idx < 17 \<Longrightarrow>
   zone_values idx = Inr (GRAY18 * 2 powr (zone_edges ! idx), GRAY18 * 2 powr (zone_edges ! Suc idx))"
  by (simp add: zone_values_def zone_stops_edges)

lemma zone_mask_log:
  "idx < 17 \<Longrightarrow> 0 < y \<Longrightarrow>
   zone_mask idx y =
     (zone_edges ! idx \<le> log 2 (y / GRAY18) \<and> log 2 (y / GRAY18) < zone_edges ! Suc idx)"
  by (simp add: zone_mask_def zone_values_edges stops_le_iff stops_less_iff GRAY18_pos)

lemma zone_values_pos:
  "zone_values idx = Inr (lo, hi) \<Longrightarrow> 0 < lo"
  by (auto simp: zone_values_def GRAY18_pos split: sum.splits prod.splits)

lemma zone_mask_nonpos: "y \<le> 0 \<Longrightarrow> \<not> zone_mask idx y"
  by (auto simp: zone_mask_def split: sum.splits dest!: zone_values_pos)

lemma filter_upt_unique:
  assumes "k < n" "P k" "\<And>j. j < n \<Longrightarrow> P j \<Longrightarrow> j = k"
  shows "filter P [0..<n] = [k]"
proof -
  have "[0..<k + (n - k)] = [0..<k] @ [k..<k + (n - k)]"
    by (rule upt_add_eq_append) simp
  moreover have "k + (n - k) = n" using assms(1) by simp
  ultimately have "[0..<n] = [0..<k] @ [k..<n]" by simp
  moreover have "[k..<n] = k # [Suc k..<n]"
    using assms(1) by (rule upt_conv_Cons)
  ultimately have split: "[0..<n] = [0..<k] @ k # [Suc k..<n]" by simp
  have a: "filter P [0..<k] = []"
  proof -
    have "\<not> P j" if "j \<in> set [0..<k]" for j
      using that assms(1) assms(3) [of j] by auto
    then show ?thesis by (simp only: filter_empty_conv) blast
  qed
  have b: "filter P [Suc k..<n] = []"
  proof -
    have "\<not> P j" if "j \<in> set [Suc k..<n]" for j
      using that assms(3) [of j] by auto
    then show ?thesis by (simp only: filter_empty_conv) blast
  qed
  show ?thesis
    by (simp only: split filter_append filter.simps a b assms(2) if_True append_Nil)
qed

lemma interval_exists:
  fixes es :: "real list"
  shows "es ! 0 \<le> s \<Longrightarrow> s < es ! n \<Longrightarrow> \<exists>k<n. es ! k \<le> s \<and> s < es ! Suc k"
proof (induction n)
  case 0
  then show ?case by simp
next
  case (Suc n)
  show ?case
  proof (cases "s < es ! n")
    case True
    with Suc obtain k where "k < n" "es ! k \<le> s \<and> s < es ! Suc k" by blast
    then show ?thesis by (intro exI [of _ k]) simp
  next
    case False
    with Suc.prems show ?thesis by (intro exI [of _ n]) simp
  qed
qed

lemma edges_exists:
  assumes "-20 \<le> s" "s < 20"
  shows "\<exists>k<17. zone_edges ! k \<le> s \<and> s < zone_edges ! Suc k"
proof (rule interval_exists)
  show "zone_edges ! 0 \<le> s" using assms by (simp add: zone_edges_def)
  show "s < zone_edges ! 17" using assms by (simp add: zone_edges_def)
qed

lemma edges_unique:
  assumes "j < 17" "k < 17"
    and "zone_edges ! j \<le> s" "s < zone_edges ! Suc j"
    and "zone_edges ! k \<le> s" "s < zone_edges ! Suc k"
  shows "j = k"
proof (rule ccontr)
  assume "j \<noteq> k"
  then consider "j < k" | "k < j" by linarith
  then show False
  proof cases
    case 1
    then have "zone_edges ! Suc j \<le> zone_edges ! k"
      using zone_edges_mono [of "Suc j" k] assms(2) by (cases "Suc j = k") auto
    with assms show False by linarith
  next
    case 2
    then have "zone_edges ! Suc k \<le> zone_edges ! j"
      using zone_edges_mono [of "Suc k" j] assms(1) by (cases "Suc k = j") auto
    with assms show False by linarith
  qed
qed

lemma zones_containing_single:
  assumes "GRAY18 * 2 powr (-20) \<le> y" "y < GRAY18 * 2 powr 20"
  shows "\<exists>k<17. zones_containing y = [k]"
proof -
  have "0 < GRAY18 * 2 powr (-20)" using GRAY18_pos by simp
  with assms have y: "0 < y" by linarith
  define s where "s = log 2 (y / GRAY18)"
  have "-20 \<le> s" "s < 20"
    using assms y by (simp_all add: s_def stops_le_iff [symmetric] stops_less_iff [symmetric] GRAY18_pos)
  from edges_exists [OF this] obtain k where k: "k < 17" "zone_edges ! k \<le> s" "s < zone_edges ! Suc k"
    by blast
  have "filter (\<lambda>idx. zone_mask idx y) [0..<17] = [k]"
  proof (rule filter_upt_unique)
    show "k < 17" by fact
    show "zone_mask k y" using k y by (simp add: zone_mask_log s_def)
    show "j = k" if "j < 17" "zone_mask j y" for j
      using that k y edges_unique [of j k s] by (simp add: zone_mask_log s_def)
  qed
  then show ?thesis using k(1) by (auto simp: zones_containing_def length_STOPS_LIST)
qed

lemma length_color_list_display: "length color_list_display = 17"
  by (simp add: color_list_display_def color_list_linear_def color_list_8bit_def COLOR_LIST_8BIT_def)

lemma zone_iter_mask:
  assumes "idx < 17"
  shows "zone_iter linear_y idx out_colors =
     Inr (\<lambda>p. if zone_mask idx (linear_y p) then color_list_display ! idx else out_colors p)"
  using assms
  by (simp add: zone_iter_def zone_mask_def zone_values_edges py_index_def length_color_list_display)

lemma zone_loop_foldl:
  assumes "\<forall>idx \<in> set is. idx < 17"
  shows "zone_loop linear_y is out_colors =
     Inr (\<lambda>p. foldl (\<lambda>c idx. if zone_mask idx (linear_y p) then color_list_display ! idx else c)
                 (out_colors p) is)"
  using assms
  by (induction "is" arbitrary: out_colors) (simp_all add: zone_iter_mask)

lemma foldl_overwrite:
  "foldl (\<lambda>c i. if P i then f i else c) c0 is =
     (if filter P is = [] then c0 else f (last (filter P is)))"
  by (induction "is" arbitrary: c0) auto

lemma map_luminance_to_zones_eq:
  "map_luminance_to_zones linear_y =
     Inr (\<lambda>p. if zones_containing (linear_y p) = [] then (0, 0, 0)
              else color_list_display ! last (zones_containing (linear_y p)))"
  by (simp add: map_luminance_to_zones_def zone_loop_foldl foldl_overwrite zones_containing_def
      length_STOPS_LIST cong: if_cong)

subsection \<open>Claims about the zone table\<close>

text \<open>
  Claim C5. The table has 17 entries. For every entry the loop computes
  \<open>low_value < high_value\<close>; for every adjacent pair the \<open>high_value\<close> of an entry is the
  \<open>low_value\<close> of the next; the first \<open>low_value\<close> is \<open>GRAY18 * 2 ** -20\<close> and the last
  \<open>high_value\<close> is \<open>GRAY18 * 2 ** 20\<close>.
\<close>

theorem zone_table_contiguous:
  "length STOPS_LIST = 17 \<and>
   (\<forall>idx<17. \<exists>low_value high_value.
       zone_values idx = Inr (low_value, high_value) \<and> low_value < high_value) \<and>
   (\<forall>idx<16. \<exists>low_value mid high_value.
       zone_values idx = Inr (low_value, mid) \<and> zone_values (Suc idx) = Inr (mid, high_value)) \<and>
   (\<exists>high_value. zone_values 0 = Inr (GRAY18 * 2 powr (-20), high_value)) \<and>
   (\<exists>low_value. zone_values 16 = Inr (low_value, GRAY18 * 2 powr 20))"
proof (intro conjI allI impI)
  show "length STOPS_LIST = 17" by (rule length_STOPS_LIST)
next
  fix idx :: nat assume idx: "idx < 17"
  have "zone_edges ! idx < zone_edges ! Suc idx"
    using idx by (intro zone_edges_mono) simp_all
  then have "GRAY18 * 2 powr (zone_edges ! idx) < GRAY18 * 2 powr (zone_edges ! Suc idx)"
    using GRAY18_pos by simp
  then show "\<exists>low_value high_value.
       zone_values idx = Inr (low_value, high_value) \<and> low_value < high_value"
    using idx by (simp add: zone_values_edges)
next
  fix idx :: nat assume "idx < 16"
  then show "\<exists>low_value mid high_value.
       zone_values idx = Inr (low_value, mid) \<and> zone_values (Suc idx) = Inr (mid, high_value)"
    by (simp add: zone_values_edges)
next
  show "\<exists>high_value. zone_values 0 = Inr (GRAY18 * 2 powr (-20), high_value)"
    by (simp add: zone_values_edges zone_edges_def)
next
  have "zone_values 16 = Inr (GRAY18 * 2 powr (zone_edges ! 16), GRAY18 * 2 powr (zone_edges ! Suc 16))"
    by (rule zone_values_edges) simp
  then show "\<exists>low_value. zone_values 16 = Inr (low_value, GRAY18 * 2 powr 20)"
    by (simp add: zone_edges_def)
qed

text \<open>Claim C5 at the zone of stop 0 (index 8) and its right neighbour.\<close>

theorem zone_table_contiguous_witness:
  "(8::nat) < 17 \<and>
   (\<exists>low_value high_value. zone_values 8 = Inr (low_value, high_value) \<and> low_value < high_value) \<and>
   (8::nat) < 16 \<and>
   (\<exists>low_value mid high_value.
       zone_values 8 = Inr (low_value, mid) \<and> zone_values (Suc 8) = Inr (mid, high_value))"
proof -
  have a: "\<forall>idx<17. \<exists>low_value high_value.
       zone_values idx = Inr (low_value, high_value) \<and> low_value < high_value"
    and b: "\<forall>idx<16. \<exists>low_value mid high_value.
       zone_values idx = Inr (low_value, mid) \<and> zone_values (Suc idx) = Inr (mid, high_value)"
    using zone_table_contiguous by blast+
  have l: "(8::nat) < 17" and m: "(8::nat) < 16" by simp_all
  from a l have a8: "\<exists>low_value high_value. zone_values 8 = Inr (low_value, high_value) \<and> low_value < high_value"
    by blast
  from b m have b8: "\<exists>low_value mid high_value.
       zone_values 8 = Inr (low_value, mid) \<and> zone_values (Suc 8) = Inr (mid, high_value)"
    by blast
  from l a8 m b8 show ?thesis by blast
qed

text \<open>
  Claim C1 says that every non-negative luminance lies in exactly one zone interval. The
  outer boundaries are finite (\<open>-20\<close> and \<open>+20\<close> stops), so the luminance \<open>0\<close> of a black
  pixel lies in no zone.
\<close>

theorem luminance_zero_in_no_zone:
  "zones_containing 0 = []"
  by (simp add: zones_containing_def filter_empty_conv zone_mask_nonpos)

text \<open>
  Claim C1, amended. A luminance between the outer boundaries, \<open>GRAY18 * 2 ** -20 \<le> y\<close> and
  \<open>y < GRAY18 * 2 ** 20\<close>, lies in exactly one of the 17 zone intervals, and the zone map
  gives the pixel the display colour of that zone.
\<close>

theorem luminance_in_range_one_zone:
  assumes "GRAY18 * 2 powr (-20) \<le> linear_y p" and "linear_y p < GRAY18 * 2 powr 20"
  shows "\<exists>idx<17. zones_containing (linear_y p) = [idx] \<and>
           (\<exists>out_colors. map_luminance_to_zones linear_y = Inr out_colors \<and>
                          out_colors p = color_list_display ! idx)"
proof -
  from zones_containing_single [OF assms] obtain k where "k < 17" "zones_containing (linear_y p) = [k]"
    by blast
  then show ?thesis
    by (intro exI [of _ k]) (simp add: map_luminance_to_zones_eq)
qed

text \<open>Claim C1, amended, at the luminance \<open>0.18\<close> of mid grey.\<close>

theorem luminance_in_range_one_zone_witness:
  "GRAY18 * 2 powr (-20) \<le> (0.18::real) \<and> (0.18::real) < GRAY18 * 2 powr 20 \<and>
   (\<exists>idx<17. zones_containing 0.18 = [idx] \<and>
      (\<exists>out_colors. map_luminance_to_zones (\<lambda>p::unit. 0.18) = Inr out_colors \<and>
                     out_colors () = color_list_display ! idx))"
proof -
  have "(2::real) powr (-20) \<le> 2 powr 0" by (intro powr_mono) simp_all
  then have a: "GRAY18 * 2 powr (-20) \<le> (0.18::real)" by (simp add: GRAY18_def)
  have "(2::real) powr 0 < 2 powr 20" by (intro powr_less_mono) simp_all
  then have b: "(0.18::real) < GRAY18 * 2 powr 20" by (simp add: GRAY18_def)
  from luminance_in_range_one_zone [of "\<lambda>p::unit. 0.18" "()", OF a b] a b
  show ?thesis by blast
qed

text \<open>
  Claim C9. A pixel whose luminance no zone interval contains keeps the colour
  \<open>(0, 0, 0)\<close> of the zero-initialised buffer.
\<close>

theorem unmatched_pixel_is_black:
  assumes "zones_containing (linear_y p) = []"
  shows "\<exists>out_colors. map_luminance_to_zones linear_y = Inr out_colors \<and> out_colors p = (0, 0, 0)"
  using assms by (simp add: map_luminance_to_zones_eq)

text \<open>
  Claim C9 at luminance \<open>0\<close>, which lies below the lowest boundary \<open>GRAY18 * 2 ** -20\<close>.
\<close>

theorem unmatched_pixel_is_black_witness:
  "zones_containing 0 = [] \<and> 0 < GRAY18 * 2 powr (-20) \<and>
   (\<exists>out_colors. map_luminance_to_zones (\<lambda>p::unit. 0) = Inr out_colors \<and> out_colors () = (0, 0, 0))"
proof -
  have z: "zones_containing 0 = []"
    by (simp add: zones_containing_def filter_empty_conv zone_mask_nonpos)
  have g: "0 < GRAY18 * 2 powr (-20)" using GRAY18_pos by simp
  from unmatched_pixel_is_black [of "\<lambda>p::unit. 0" "()", OF z] z g show ?thesis by blast
qed

subsection \<open>Claims about log decoding\<close>

lemma indices_in_shape: "i \<in> set (indices s) \<Longrightarrow> in_shape s i"
  unfolding in_shape_def
  by (induction s arbitrary: i) auto

lemma indices_nonempty: "0 \<notin> set s \<Longrightarrow> indices s \<noteq> []"
proof (induction s)
  case Nil
  then show ?case by simp
next
  case (Cons n ns)
  then have n: "0 < n" and ns: "indices ns \<noteq> []" by auto
  from ns obtain j js where "indices ns = j # js" by (cases "indices ns") auto
  moreover from n have "[0..<n] = 0 # [1..<n]" by (simp add: upt_rec)
  ultimately show ?case by simp
qed

lemma fold_max_le: "y \<le> b \<Longrightarrow> \<forall>x \<in> set xs. x \<le> b \<Longrightarrow> fold max xs y \<le> (b::real)"
  by (induction xs arbitrary: y) simp_all

lemma map_array_same:
  assumes "\<And>i. in_shape (arr_shape a) i \<Longrightarrow> f (elem a i) = elem a i"
  shows "map_array f a = a"
proof -
  have "(\<lambda>i. if in_shape (arr_shape a) i then f (elem a i) else elem a i) = elem a"
    using assms by auto
  then show ?thesis by (simp add: map_array_def)
qed

lemma array_max_le:
  assumes "0 \<notin> set (arr_shape a)" "\<And>i. in_shape (arr_shape a) i \<Longrightarrow> elem a i \<le> b"
  shows "\<exists>m. array_max a = Inr m \<and> m \<le> b"
proof -
  from indices_nonempty [OF assms(1)] obtain j js where js: "indices (arr_shape a) = j # js"
    by (cases "indices (arr_shape a)") auto
  have "\<forall>i \<in> set (j # js). elem a i \<le> b"
    using assms(2) indices_in_shape [of _ "arr_shape a"] unfolding js [symmetric] by blast
  then have "fold max (map (elem a) js) (elem a j) \<le> b"
    by (intro fold_max_le) auto
  then show ?thesis by (simp add: array_max_def js)
qed

lemma unit_array_unchanged:
  assumes "arr_shape a \<noteq> []" "0 \<notin> set (arr_shape a)" "last (arr_shape a) \<noteq> 4"
    and "unit_float_array fl a"
  shows "image_to_array fl (Ndarray a) = Inr a"
proof -
  have same: "map_array fl a = a"
    using assms(4) by (intro map_array_same) (simp add: unit_float_array_def)
  from array_max_le [OF assms(2), of 1] assms(4) obtain m where "array_max a = Inr m" "m \<le> 1"
    unfolding unit_float_array_def by blast
  then show ?thesis
    using assms(1,3) by (simp add: image_to_array_def same Let_def)
qed

text \<open>
  Claim C6, amended. With the selector \<open>linear\<close> the processor has no decode function,
  whether or not the \<open>colour\<close> library is present, and the linear frame that is
  classified is the converted array \<open>img_array\<close>: the decoding step is the identity. It
  is the input frame itself, in shape and values, when the input is an array with no
  empty axis, whose last axis is not 4 long and whose samples are \<open>float32\<close> values not
  above \<open>1.0\<close>.
\<close>

theorem linear_frame_is_converted_array:
  "get_decode_function colour ''linear'' = Inr None \<and>
   linear_frame fl None img = image_to_array fl img \<and>
   (arr_shape a \<noteq> [] \<and> 0 \<notin> set (arr_shape a) \<and> last (arr_shape a) \<noteq> 4 \<and>
    unit_float_array fl a \<longrightarrow> linear_frame fl None (Ndarray a) = Inr a)"
proof (intro conjI impI)
  show "get_decode_function colour ''linear'' = Inr None"
    by (simp add: get_decode_function_def)
  show lf: "linear_frame fl None img = image_to_array fl img" for img
    by (cases "image_to_array fl img") (simp_all add: linear_frame_def)
  assume "arr_shape a \<noteq> [] \<and> 0 \<notin> set (arr_shape a) \<and> last (arr_shape a) \<noteq> 4 \<and>
    unit_float_array fl a"
  then show "linear_frame fl None (Ndarray a) = Inr a"
    by (simp add: lf unit_array_unchanged)
qed

text \<open>Claim C6, amended, for an array of one pixel with the samples \<open>0.5\<close>.\<close>

theorem linear_frame_is_converted_array_witness:
  "arr_shape (const_array [1, 1, 3] 0.5) \<noteq> [] \<and> 0 \<notin> set (arr_shape (const_array [1, 1, 3] 0.5)) \<and>
   last (arr_shape (const_array [1, 1, 3] 0.5)) \<noteq> 4 \<and>
   unit_float_array (\<lambda>x. x) (const_array [1, 1, 3] 0.5) \<and>
   linear_frame (\<lambda>x. x) None (Ndarray (const_array [1, 1, 3] 0.5)) = Inr (const_array [1, 1, 3] 0.5)"
proof -
  have h: "arr_shape (const_array [1, 1, 3] 0.5) \<noteq> [] \<and>
      0 \<notin> set (arr_shape (const_array [1, 1, 3] 0.5)) \<and>
      last (arr_shape (const_array [1, 1, 3] 0.5)) \<noteq> 4 \<and>
      unit_float_array (\<lambda>x. x) (const_array [1, 1, 3] 0.5)"
    by (simp add: const_array_def unit_float_array_def)
  from linear_frame_is_converted_array [of None "\<lambda>x. x" "Ndarray (const_array [1, 1, 3] 0.5)"
      "const_array [1, 1, 3] 0.5"] h
  show ?thesis by blast
qed

lemma fold_max_const: "\<forall>x \<in> set xs. x = v \<Longrightarrow> fold max xs v = (v::real)"
  by (induction xs) simp_all

lemma array_max_const:
  assumes "0 \<notin> set shp"
  shows "array_max (const_array shp v) = Inr v"
proof -
  from indices_nonempty [OF assms] obtain j js where js: "indices shp = j # js"
    by (cases "indices shp") auto
  have "fold max (map (\<lambda>i. v) js) v = v" by (rule fold_max_const) simp
  then show ?thesis by (simp add: array_max_def const_array_def js)
qed

lemma const_array_scaled:
  assumes "0 \<notin> set shp" "shp \<noteq> []" "last shp \<noteq> 4" "1 < v"
  shows "linear_frame (\<lambda>x. x) None (Ndarray (const_array shp v))
           = Inr (map_array (\<lambda>x. x / 255) (const_array shp v))"
proof -
  have m: "map_array (\<lambda>x. x) (const_array shp v) = const_array shp v"
    by (rule map_array_same) simp
  have sh: "arr_shape (map_array (\<lambda>x. x / 255) (const_array shp v)) = shp"
    by (simp add: map_array_def const_array_def)
  show ?thesis
    using assms(2-4)
    by (simp add: linear_frame_def image_to_array_def m array_max_const [OF assms(1)] Let_def sh)
qed

lemma rgba_array_drops_alpha:
  assumes "0 \<notin> set shp"
  shows "\<exists>b. linear_frame fl None (Ndarray (const_array (shp @ [4]) v)) = Inr b \<and>
             arr_shape b = shp @ [3]"
proof -
  from assms have "0 \<notin> set (shp @ [4])" by simp
  from indices_nonempty [OF this] obtain j js where js: "indices (shp @ [4]) = j # js"
    by (cases "indices (shp @ [4])") auto
  show ?thesis
    by (simp add: linear_frame_def image_to_array_def Let_def array_max_def map_array_def
        const_array_def js first_three_def)
qed

text \<open>
  Claim C6 says that with \<open>linear\<close> the frame that is classified equals the input frame
  in shape and values. An input array with the samples \<open>2.0\<close> is divided by 255 before
  it is classified, and an input array with four channels loses the fourth, whatever
  the rounding.
\<close>

theorem linear_frame_differs_from_input:
  "linear_frame (\<lambda>x. x) None (Ndarray (const_array [1, 1, 3] 2))
     = Inr (map_array (\<lambda>x. x / 255) (const_array [1, 1, 3] 2)) \<and>
   elem (map_array (\<lambda>x. x / 255) (const_array [1, 1, 3] 2)) [0, 0, 0] = 2 / 255 \<and>
   elem (const_array [1, 1, 3] 2) [0, 0, 0] = 2 \<and>
   (\<forall>fl. \<exists>b. linear_frame fl None (Ndarray (const_array [1, 1, 4] 0.5)) = Inr b \<and>
               arr_shape b = [1, 1, 3])"
proof (intro conjI allI)
  show "linear_frame (\<lambda>x. x) None (Ndarray (const_array [1, 1, 3] 2))
     = Inr (map_array (\<lambda>x. x / 255) (const_array [1, 1, 3] 2))"
    by (rule const_array_scaled) simp_all
  show "elem (map_array (\<lambda>x. x / 255) (const_array [1, 1, 3] 2)) [0, 0, 0] = 2 / 255"
    by (simp add: map_array_def const_array_def in_shape_def)
  show "elem (const_array [1, 1, 3] 2) [0, 0, 0] = 2"
    by (simp add: const_array_def)
next
  fix fl :: "real \<Rightarrow> real"
  show "\<exists>b. linear_frame fl None (Ndarray (const_array [1, 1, 4] 0.5)) = Inr b \<and>
               arr_shape b = [1, 1, 3]"
    using rgba_array_drops_alpha [of "[1, 1]" fl "0.5"] by simp
qed

lemma map_luminance_to_zones_total:
  "\<exists>out_colors. map_luminance_to_zones linear_y = Inr out_colors"
  by (simp add: map_luminance_to_zones_eq)

text \<open>
  Claim C7. A selector outside the recognised set makes the constructor choose the
  generic fallback \<open>v \<mapsto> 2 ** ((v - 0.5) * 14)\<close> without raising, and the zone map of any
  frame is then computed without raising.
\<close>

theorem unrecognized_format_falls_back:
  assumes "log_format \<notin> {''linear'', ''logc4'', ''slog3'', ''apple_log'', ''redlog3''}"
  shows "get_decode_function colour log_format = Inr (Some log_decoding_fallback) \<and>
         (\<forall>v. log_decoding_fallback v = 2 powr ((v - 0.5) * 14)) \<and>
         (\<exists>out_colors. create_el_zone_map (Some log_decoding_fallback) img_array = Inr out_colors)"
  using assms
  by (simp add: get_decode_function_def log_decoding_fallback_def create_el_zone_map_def
      map_luminance_to_zones_total)

text \<open>Claim C7 at the selector \<open>cineon\<close>, without the \<open>colour\<close> library.\<close>

theorem unrecognized_format_falls_back_witness:
  "''cineon'' \<notin> {''linear'', ''logc4'', ''slog3'', ''apple_log'', ''redlog3''} \<and>
   get_decode_function None ''cineon'' = Inr (Some log_decoding_fallback) \<and>
   (\<forall>v. log_decoding_fallback v = 2 powr ((v - 0.5) * 14)) \<and>
   (\<exists>out_colors. create_el_zone_map (Some log_decoding_fallback) (\<lambda>p::unit. (0.5, 0.5, 0.5)) = Inr out_colors)"
proof -
  have h: "''cineon'' \<notin> {''linear'', ''logc4'', ''slog3'', ''apple_log'', ''redlog3''}"
    by simp
  from unrecognized_format_falls_back [OF h, of None "\<lambda>p::unit. (0.5, 0.5, 0.5)"] h
  show ?thesis by blast
qed

lemma root4_10: "(7/4::real) < 10 powr (1/4)"
proof -
  have "(7/4::real) = ((7/4) ^ 4) powr (1/4)"
    by (simp add: powr_powr flip: powr_numeral)
  also have "\<dots> < 10 powr (1/4)"
    by (intro powr_less_mono2) (simp_all add: power4_eq_xxxx)
  finally show ?thesis .
qed

lemma root4_2: "(2::real) powr (1/4) < 6/5"
proof -
  have "(2::real) powr (1/4) < ((6/5) ^ 4) powr (1/4)"
    by (intro powr_less_mono2) (simp_all add: power4_eq_xxxx)
  also have "\<dots> = 6/5"
    by (simp add: powr_powr flip: powr_numeral)
  finally show ?thesis .
qed

lemma logc4_accurate_above:
  assumes "(v::real) > 0.0851858618842153"
  shows "1/2 < 10 powr ((v - 0.0562935137369496) / 0.0647954196341293)
      - 0.0799017958419154 / 0.0647954196341293"
proof -
  define E :: real where "E = 10 powr ((v - 0.0562935137369496) / 0.0647954196341293)"
  define B :: real where "B = 0.0799017958419154 / 0.0647954196341293"
  have "(1/4::real) \<le> (v - 0.0562935137369496) / 0.0647954196341293"
    using assms by (simp add: field_simps)
  then have "(10::real) powr (1/4) \<le> E"
    unfolding E_def by (intro powr_mono) simp_all
  with root4_10 have "7/4 < E" by linarith
  moreover have "B < 5/4" by (simp add: B_def)
  ultimately have "1/2 < E - B" by linarith
  then show ?thesis by (simp only: E_def B_def)
qed

lemma logc4_accurate_range:
  "log_decoding_logc4_accurate v = 0 \<or> 1/2 < log_decoding_logc4_accurate v"
proof (cases "v > 0.0851858618842153")
  case True
  from logc4_accurate_above [OF True] True show ?thesis
    by (simp add: log_decoding_logc4_accurate_def np_clip_low_def Let_def max_def)
next
  case False
  then have "(v - 0.0851858618842153) / 0.0799017958419154 \<le> 0"
    by (simp add: field_simps)
  then show ?thesis
    using False by (simp add: log_decoding_logc4_accurate_def np_clip_low_def Let_def max_def)
qed

lemma uniform_luminance: "rgb_to_y_bt2020 (map_rgb f (v, v, v)) = f v"
  by (simp add: rgb_to_y_bt2020_def map_rgb_def algebra_simps)

lemma zone0_high: "GRAY18 * 2 powr (zone_edges ! Suc 8) < 1/2"
proof -
  have "GRAY18 * 2 powr (1/4) < GRAY18 * (6/5)"
    using root4_2 GRAY18_pos by simp
  also have "\<dots> < 1/2" by (simp add: GRAY18_def)
  finally show ?thesis by (simp add: zone_edges_def)
qed

lemma logc4_accurate_never_zone0:
  "\<not> zone_mask 8 (log_decoding_logc4_accurate v)"
proof -
  have m: "zone_mask 8 y = (GRAY18 * 2 powr (zone_edges ! 8) \<le> y \<and> y < GRAY18 * 2 powr (zone_edges ! Suc 8))" for y
    by (simp add: zone_mask_def zone_values_edges)
  from logc4_accurate_range [of v] show ?thesis
  proof
    assume "log_decoding_logc4_accurate v = 0"
    then show ?thesis by (simp add: zone_mask_nonpos)
  next
    assume "1/2 < log_decoding_logc4_accurate v"
    with zone0_high show ?thesis unfolding m by linarith
  qed
qed

lemma logc4_accurate_midgray:
  "98 \<le> log_decoding_logc4_accurate 0.278 \<and> log_decoding_logc4_accurate 0.278 \<le> 10000"
proof -
  define E :: real where "E = 10 powr ((0.278 - 0.0562935137369496) / 0.0647954196341293)"
  define B :: real where "B = 0.0799017958419154 / 0.0647954196341293"
  have "(10::real) powr 2 \<le> E"
    unfolding E_def by (intro powr_mono) simp_all
  then have lo: "100 \<le> E" by simp
  have "E \<le> 10 powr 4"
    unfolding E_def by (intro powr_mono) simp_all
  then have hi: "E \<le> 10000" by simp
  have B: "0 \<le> B" "B \<le> 2" by (simp_all add: B_def)
  have "98 \<le> E - B" "E - B \<le> 10000" using lo hi B by linarith+
  then have "98 \<le> max (E - B) 0 \<and> max (E - B) 0 \<le> 10000" by simp
  then show ?thesis
    by (simp add: log_decoding_logc4_accurate_def np_clip_low_def Let_def E_def B_def)
qed

lemma zones_containing_top:
  assumes "98 \<le> y" "y \<le> 10000"
  shows "zones_containing y = [16]"
proof -
  have p7: "(2::real) powr (zone_edges ! 16) \<le> 2 powr 7"
    by (intro powr_mono) (simp_all add: zone_edges_def)
  have lo: "GRAY18 * 2 powr (zone_edges ! 16) \<le> y"
  proof -
    have "GRAY18 * 2 powr (zone_edges ! 16) \<le> GRAY18 * 2 powr 7"
      using p7 GRAY18_pos by simp
    also have "\<dots> \<le> 98" by (simp add: GRAY18_def)
    finally show ?thesis using assms by linarith
  qed
  have hi: "y < GRAY18 * 2 powr 20"
  proof -
    have "(10000::real) < GRAY18 * 2 powr 20" by (simp add: GRAY18_def)
    with assms show ?thesis by linarith
  qed
  have "(2::real) powr (-20) \<le> 2 powr 7" by (intro powr_mono) simp_all
  then have "GRAY18 * 2 powr (-20) \<le> GRAY18 * 2 powr 7" using GRAY18_pos by simp
  also have "\<dots> \<le> 98" by (simp add: GRAY18_def)
  finally have lo': "GRAY18 * 2 powr (-20) \<le> y" using assms by linarith
  from zones_containing_single [OF lo' hi] obtain k where k: "zones_containing y = [k]"
    by blast
  have "zone_mask 16 y"
    using lo hi by (simp add: zone_mask_def zone_values_edges zone_edges_def)
  then have "16 \<in> set (zones_containing y)"
    by (simp add: zones_containing_def length_STOPS_LIST)
  with k show ?thesis by simp
qed

lemma uniform_zone_map:
  assumes "zones_containing (f v) = [k]"
  shows "create_el_zone_map (Some f) (\<lambda>p. (v, v, v)) = Inr (\<lambda>p. color_list_display ! k)"
  using assms
  by (simp add: create_el_zone_map_def linear_image_def map_luminance_to_zones_eq
      uniform_luminance)

text \<open>
  Claim C4 says that the LogC4 code value of mid grey is classified into the zone of
  stop 0 (index 8). The decode function of this file, \<open>_log_decoding_logc4_accurate\<close>,
  returns either \<open>0\<close> or a value above \<open>1/2\<close>: no code value decodes to \<open>0.18\<close>, no uniform
  frame is classified into the zone of stop 0, and the code value \<open>0.278\<close> that ARRI
  gives for 18% grey is classified into the zone of stop \<open>+7\<close> (index 16).
\<close>

theorem logc4_accurate_midgray_not_zone0:
  "(\<forall>v. log_decoding_logc4_accurate v \<noteq> 0.18) \<and>
   (\<forall>v. \<not> zone_mask 8 (rgb_to_y_bt2020 (map_rgb log_decoding_logc4_accurate (v, v, v)))) \<and>
   zones_containing (rgb_to_y_bt2020 (map_rgb log_decoding_logc4_accurate (0.278, 0.278, 0.278))) = [16] \<and>
   get_decode_function None ''logc4'' = Inr (Some log_decoding_logc4_accurate) \<and>
   create_el_zone_map (Some log_decoding_logc4_accurate) (\<lambda>p::'p. (0.278, 0.278, 0.278))
     = Inr (\<lambda>p. color_list_display ! 16) \<and>
   color_list_8bit ! 16 = (255, 255, 255) \<and> color_list_8bit ! 8 = (144, 140, 135)"
proof (intro conjI allI)
  show "color_list_8bit ! 16 = (255, 255, 255)" "color_list_8bit ! 8 = (144, 140, 135)"
    by (simp_all add: color_list_8bit_def COLOR_LIST_8BIT_def)
next
  fix v :: real
  from logc4_accurate_range [of v] show "log_decoding_logc4_accurate v \<noteq> 0.18" by auto
  show "\<not> zone_mask 8 (rgb_to_y_bt2020 (map_rgb log_decoding_logc4_accurate (v, v, v)))"
    by (simp only: uniform_luminance logc4_accurate_never_zone0 not_False_eq_True)
next
  have z: "zones_containing (log_decoding_logc4_accurate 0.278) = [16]"
    using logc4_accurate_midgray by (intro zones_containing_top) simp_all
  show "zones_containing (rgb_to_y_bt2020 (map_rgb log_decoding_logc4_accurate (0.278, 0.278, 0.278))) = [16]"
    by (simp only: uniform_luminance z)
  show "create_el_zone_map (Some log_decoding_logc4_accurate) (\<lambda>p::'p. (0.278, 0.278, 0.278))
     = Inr (\<lambda>p. color_list_display ! 16)"
    using z by (rule uniform_zone_map)
next
  show "get_decode_function None ''logc4'' = Inr (Some log_decoding_logc4_accurate)"
    by (simp add: get_decode_function_def)
qed

subsection \<open>Claims about the compositor\<close>

lemma layout_landscape_frame:
  "create_4_quadrant_layout (1080, 1920) (1080, 1920) (540, 480) (540, 480) (1920, 1080)
     = Inr (540, 540)"
  by (simp add: create_4_quadrant_layout_def resize_to_fill_width_def resize_to_fit_def
      pil_resize_def np_zeros_def np_assign_def slice_len_def slice_bound_def py_int_def Let_def)

text \<open>
  Claim C3 says that \<open>top_height \<le> 1080\<close> for every frame composed at \<open>(1920, 1080)\<close>.
  \<open>_resize_to_fill_width\<close> scales by the width alone; for a frame 960 wide and 2000 high
  the resized top image is 2000 rows high, the remaining height is negative and the
  layout raises instead of placing the quadrants.
\<close>

theorem tall_frame_overflows_canvas:
  "resize_to_fill_width (2000, 960) (1920 div 2, 1080 div 2) = Inr (2000, 960) \<and>
   \<not> (2000 \<le> (1080::int)) \<and> (1080 - 2000 < (0::int)) \<and>
   create_4_quadrant_layout (2000, 960) (2000, 960) (540, 480) (540, 480) (1920, 1080)
     = Inl ValueError"
  by (simp add: create_4_quadrant_layout_def resize_to_fill_width_def resize_to_fit_def
      pil_resize_def np_zeros_def np_assign_def slice_len_def slice_bound_def py_int_def Let_def)

subsection \<open>Claims about the vectorscope\<close>

lemma py_int_clip_range:
  assumes "1 \<le> n"
  shows "0 \<le> py_int (np_clip x 0 (real_of_int (n - 1))) \<and> py_int (np_clip x 0 (real_of_int (n - 1))) \<le> n - 1"
proof -
  define c where "c = np_clip x 0 (real_of_int (n - 1))"
  have c: "0 \<le> c" "c \<le> real_of_int (n - 1)"
    using assms by (simp_all add: c_def np_clip_def)
  then have "py_int c = \<lfloor>c\<rfloor>" by (simp add: py_int_def)
  moreover have "0 \<le> \<lfloor>c\<rfloor>" using c by simp
  moreover have "\<lfloor>c\<rfloor> \<le> n - 1"
  proof -
    have "\<lfloor>c\<rfloor> \<le> \<lfloor>real_of_int (n - 1)\<rfloor>" using c(2) by (rule floor_mono)
    then show ?thesis by simp
  qed
  ultimately show ?thesis unfolding c_def by simp
qed

lemma vectorscope_coords_in_canvas:
  assumes "1 \<le> w" "1 \<le> h" "vectorscope_coords fl fs (w, h) pixel = Some (x_coord, y_coord)"
  shows "0 \<le> x_coord \<and> x_coord \<le> w - 1 \<and> 0 \<le> y_coord \<and> y_coord \<le> h - 1"
  using assms py_int_clip_range [of w] py_int_clip_range [of h]
  by (auto simp: vectorscope_coords_def Let_def split: prod.splits if_splits)

lemma plot_sample_ok:
  assumes "1 \<le> w" "1 \<le> h"
  shows "\<exists>cv'. plot_sample fl fs (w, h) pixel cv = Inr cv'"
proof (cases "vectorscope_coords fl fs (w, h) pixel")
  case None
  then show ?thesis by (simp add: plot_sample_def)
next
  case (Some xy)
  obtain x y where xy: "xy = (x, y)" by (cases xy)
  from vectorscope_coords_in_canvas [OF assms Some [unfolded xy]]
  show ?thesis using Some xy by (simp add: plot_sample_def np_index_def)
qed

lemma plot_samples_ok:
  assumes "1 \<le> w" "1 \<le> h"
  shows "\<exists>cv'. plot_samples fl fs (w, h) pixels cv = Inr cv'"
proof (induction pixels arbitrary: cv)
  case Nil
  then show ?case by simp
next
  case (Cons pixel rest)
  from plot_sample_ok [OF assms] obtain cv1 where "plot_sample fl fs (w, h) pixel cv = Inr cv1"
    by blast
  with Cons show ?case by simp
qed

text \<open>
  Claim C10. On a canvas with at least one row and one column, the coordinates at which
  any pixel is plotted lie in \<open>[0, width - 1] \<times> [0, height - 1]\<close>, however large its
  chroma is and however the arithmetic rounds, and the plotting loop over any frame
  finishes without an \<open>IndexError\<close>.
\<close>

theorem vectorscope_writes_inside_canvas:
  assumes "1 \<le> w" and "1 \<le> h"
  shows "(\<forall>pixel x_coord y_coord. vectorscope_coords fl fs (w, h) pixel = Some (x_coord, y_coord) \<longrightarrow>
            0 \<le> x_coord \<and> x_coord \<le> w - 1 \<and> 0 \<le> y_coord \<and> y_coord \<le> h - 1) \<and>
         (\<exists>vectorscope. vectorscope_plot fl fs f (w, h) = Inr vectorscope)"
  using assms vectorscope_coords_in_canvas [OF assms] plot_samples_ok [OF assms]
  by (simp add: vectorscope_plot_def np_zeros_def)

text \<open>
  Claim C10 on the default canvas, in exact arithmetic, for a frame of one pixel with
  very large chroma.
\<close>

theorem vectorscope_writes_inside_canvas_witness:
  "(1::int) \<le> 480 \<and> (1::int) \<le> 540 \<and>
   vectorscope_coords (\<lambda>x. x) (\<lambda>x. x) (480, 540) (10000, 0, -5) = Some (479, 539) \<and>
   (0::int) \<le> 479 \<and> (479::int) \<le> 480 - 1 \<and> (0::int) \<le> 539 \<and> (539::int) \<le> 540 - 1 \<and>
   (\<exists>vectorscope. vectorscope_plot (\<lambda>x. x) (\<lambda>x. x)
        \<lparr>height = 1, width = 1, px = (\<lambda>r c. (10000, 0, -5))\<rparr> (480, 540) = Inr vectorscope)"
proof -
  have a: "(1::int) \<le> 480" and b: "(1::int) \<le> 540" by simp_all
  have c: "vectorscope_coords (\<lambda>x. x) (\<lambda>x. x) (480, 540) (10000, 0, -5) = Some (479, 539)"
    by (simp add: vectorscope_coords_def rgb_to_yuv_def np_clip_def py_int_def Let_def)
  from vectorscope_writes_inside_canvas
    [OF a b, of "\<lambda>x. x" "\<lambda>x. x" "\<lparr>height = 1, width = 1, px = (\<lambda>r c. (10000, 0, -5))\<rparr>"]
  have d: "\<forall>pixel x_coord y_coord.
            vectorscope_coords (\<lambda>x. x) (\<lambda>x. x) (480, 540) pixel = Some (x_coord, y_coord) \<longrightarrow>
            0 \<le> x_coord \<and> x_coord \<le> 480 - 1 \<and> 0 \<le> y_coord \<and> y_coord \<le> 540 - 1"
    and e: "\<exists>vectorscope. vectorscope_plot (\<lambda>x. x) (\<lambda>x. x)
        \<lparr>height = 1, width = 1, px = (\<lambda>r c. (10000, 0, -5))\<rparr> (480, 540) = Inr vectorscope"
    by blast+
  from d c have "(0::int) \<le> 479 \<and> (479::int) \<le> 480 - 1 \<and> (0::int) \<le> 539 \<and> (539::int) \<le> 540 - 1"
    by blast
  with a b c e show ?thesis by blast
qed

subsection \<open>Rounding errors of a grey pixel\<close>

lemma rounding_id: "rounding (\<lambda>x. x)"
  by (simp add: rounding_def)

lemma rounding_mono: "rounding fl \<Longrightarrow> x \<le> y \<Longrightarrow> fl x \<le> fl y"
  by (simp add: rounding_def)

lemma rounding_int: "rounding fl \<Longrightarrow> \<bar>n\<bar> \<le> 16777216 \<Longrightarrow> fl (real_of_int n) = real_of_int n"
  by (simp add: rounding_def)

lemma rounding_zero: "rounding fl \<Longrightarrow> fl 0 = 0"
  using rounding_int [of fl 0] by simp

lemma rounding_one: "rounding fl \<Longrightarrow> fl 1 = 1"
  using rounding_int [of fl 1] by simp

lemma rounding_err:
  assumes "rounding fl" "\<bar>x\<bar> \<le> 2 ^ 100"
  shows "\<bar>fl x - x\<bar> \<le> \<bar>x\<bar> / 16777216 + 1 / 16777216000"
proof -
  have "(2::real) ^ 100 \<le> 2 ^ 127" by simp
  with assms(2) have "\<bar>x\<bar> \<le> 2 ^ 127" by linarith
  with assms(1) have "\<bar>fl x - x\<bar> \<le> \<bar>x\<bar> / 16777216 + 1 / 2 ^ 150"
    by (simp add: rounding_def)
  moreover have "(1::real) / 2 ^ 150 \<le> 1 / 16777216000" by simp
  ultimately show ?thesis by linarith
qed

lemma round_const_mul:
  assumes r: "rounding fl" and c: "\<bar>c\<bar> \<le> 1" and g: "0 \<le> g" "g \<le> 1000000"
  shows "\<bar>fl (fl c * g) - c * g\<bar> \<le> (4 * g + 1) / 16777216"
proof -
  have c100: "\<bar>c\<bar> \<le> 2 ^ 100"
  proof -
    have "(1::real) \<le> 2 ^ 100" by simp
    with c show ?thesis by linarith
  qed
  from rounding_err [OF r c100] c have e1: "\<bar>fl c - c\<bar> \<le> 2 / 16777216" by linarith
  then have fc: "\<bar>fl c\<bar> \<le> 2" using c by linarith
  have "\<bar>fl c * g - c * g\<bar> = \<bar>fl c - c\<bar> * g"
    using g(1) by (simp add: abs_mult flip: left_diff_distrib)
  also have "\<dots> \<le> 2 / 16777216 * g" using e1 g(1) by (rule mult_right_mono)
  finally have e2: "\<bar>fl c * g - c * g\<bar> \<le> 2 / 16777216 * g" .
  have "\<bar>fl c * g\<bar> = \<bar>fl c\<bar> * g" using g(1) by (simp add: abs_mult)
  also have "\<dots> \<le> 2 * g" using fc g(1) by (rule mult_right_mono)
  finally have p: "\<bar>fl c * g\<bar> \<le> 2 * g" .
  have "(2000000::real) \<le> 2 ^ 100" by simp
  with p g(2) have "\<bar>fl c * g\<bar> \<le> 2 ^ 100" by linarith
  from rounding_err [OF r this] p
  have e3: "\<bar>fl (fl c * g) - fl c * g\<bar> \<le> 2 * g / 16777216 + 1 / 16777216000" by linarith
  have "\<bar>fl (fl c * g) - c * g\<bar> \<le> \<bar>fl (fl c * g) - fl c * g\<bar> + \<bar>fl c * g - c * g\<bar>"
    by linarith
  with e2 e3 have "\<bar>fl (fl c * g) - c * g\<bar> \<le> 4 * g / 16777216 + 1 / 16777216000"
    by linarith
  then show ?thesis by (simp add: add_divide_distrib)
qed

lemma round_add:
  assumes r: "rounding fl" and a: "\<bar>a - A\<bar> \<le> ea" and b: "\<bar>b - B\<bar> \<le> eb"
    and m: "\<bar>A\<bar> + \<bar>B\<bar> + ea + eb \<le> M" "M \<le> 1000000000"
  shows "\<bar>fl (a + b) - (A + B)\<bar> \<le> ea + eb + M / 16777216 + 1 / 16777216000"
proof -
  have ab: "\<bar>a + b\<bar> \<le> M" using a b m(1) by linarith
  have "(1000000000::real) \<le> 2 ^ 100" by simp
  with ab m(2) have "\<bar>a + b\<bar> \<le> 2 ^ 100" by linarith
  from rounding_err [OF r this]
  have e: "\<bar>fl (a + b) - (a + b)\<bar> \<le> \<bar>a + b\<bar> / 16777216 + 1 / 16777216000" .
  have "\<bar>a + b\<bar> / 16777216 \<le> M / 16777216"
    using ab by (simp add: divide_right_mono)
  with e have "\<bar>fl (a + b) - (a + b)\<bar> \<le> M / 16777216 + 1 / 16777216000"
    by (meson add_right_mono order_trans)
  with a b show ?thesis by linarith
qed

lemma round_sub:
  assumes r: "rounding fl" and a: "\<bar>a - A\<bar> \<le> ea" and b: "\<bar>b - B\<bar> \<le> eb"
    and m: "\<bar>A\<bar> + \<bar>B\<bar> + ea + eb \<le> M" "M \<le> 1000000000"
  shows "\<bar>fl (a - b) - (A - B)\<bar> \<le> ea + eb + M / 16777216 + 1 / 16777216000"
proof -
  have b': "\<bar>(- b) - (- B)\<bar> \<le> eb" using b by linarith
  have m': "\<bar>A\<bar> + \<bar>- B\<bar> + ea + eb \<le> M" using m(1) by simp
  from round_add [OF r a b' m' m(2)] show ?thesis by simp
qed

lemma abs_const_mul: "\<bar>c\<bar> \<le> 1 \<Longrightarrow> 0 \<le> g \<Longrightarrow> \<bar>c * g\<bar> \<le> (g::real)"
proof -
  assume c: "\<bar>c\<bar> \<le> 1" and g: "0 \<le> g"
  have "\<bar>c * g\<bar> = \<bar>c\<bar> * g" using g by (simp add: abs_mult)
  also have "\<dots> \<le> 1 * g" using c g by (rule mult_right_mono)
  finally show ?thesis by simp
qed

lemma three_terms:
  assumes r: "rounding fl"
    and p: "\<bar>ra - xa\<bar> \<le> (4 * g + 1) / 16777216" "\<bar>rb - xb\<bar> \<le> (4 * g + 1) / 16777216"
      "\<bar>rc - xc\<bar> \<le> (4 * g + 1) / 16777216"
    and P: "\<bar>xa\<bar> \<le> g" "\<bar>xb\<bar> \<le> g" "\<bar>xc\<bar> \<le> g"
    and g: "0 \<le> g" "g \<le> 1000000"
  shows "\<bar>fl (fl (ra + rb) + rc) - (xa + xb + xc)\<bar> \<le> (19 * g + 7) / 16777216"
    and "\<bar>fl (fl (ra - rb) + rc) - (xa - xb + xc)\<bar> \<le> (19 * g + 7) / 16777216"
    and "\<bar>fl (fl (ra - rb) - rc) - (xa - xb - xc)\<bar> \<le> (19 * g + 7) / 16777216"
proof -
  define e1 where "e1 = (4 * g + 1) / 16777216"
  define e2 where "e2 = e1 + e1 + (3 * g + 1) / 16777216 + 1 / 16777216000"
  note p' = p [folded e1_def]
  have m1: "\<bar>xa\<bar> + \<bar>xb\<bar> + e1 + e1 \<le> 3 * g + 1"
    using P g unfolding e1_def by argo
  have b1: "3 * g + 1 \<le> 1000000000" using g by argo
  have a: "\<bar>fl (ra + rb) - (xa + xb)\<bar> \<le> e2"
    unfolding e2_def by (rule round_add [OF r p'(1) p'(2) m1 b1])
  have s: "\<bar>fl (ra - rb) - (xa - xb)\<bar> \<le> e2"
    unfolding e2_def by (rule round_sub [OF r p'(1) p'(2) m1 b1])
  have m2: "\<bar>xa + xb\<bar> + \<bar>xc\<bar> + e2 + e1 \<le> 4 * g + 1"
    using P g unfolding e1_def e2_def by argo
  have m3: "\<bar>xa - xb\<bar> + \<bar>xc\<bar> + e2 + e1 \<le> 4 * g + 1"
    using P g unfolding e1_def e2_def by argo
  have b2: "4 * g + 1 \<le> 1000000000" using g by argo
  have fin: "e2 + e1 + (4 * g + 1) / 16777216 + 1 / 16777216000 \<le> (19 * g + 7) / 16777216"
    using g unfolding e1_def e2_def by argo
  from round_add [OF r a p'(3) m2 b2] fin
  show "\<bar>fl (fl (ra + rb) + rc) - (xa + xb + xc)\<bar> \<le> (19 * g + 7) / 16777216"
    by argo
  from round_add [OF r s p'(3) m3 b2] fin
  show "\<bar>fl (fl (ra - rb) + rc) - (xa - xb + xc)\<bar> \<le> (19 * g + 7) / 16777216"
    by argo
  from round_sub [OF r s p'(3) m3 b2] fin
  show "\<bar>fl (fl (ra - rb) - rc) - (xa - xb - xc)\<bar> \<le> (19 * g + 7) / 16777216"
    by argo
qed

lemma gray_yuv_err:
  assumes r: "rounding fl" and g: "0 \<le> g" "g \<le> 1000000"
    and yuv: "rgb_to_yuv fl (g, g, g) = (pixel_y, pixel_u, pixel_v)"
  shows "\<bar>pixel_y - g\<bar> \<le> (19 * g + 7) / 16777216"
    and "\<bar>pixel_u - g / 100000\<bar> \<le> (19 * g + 7) / 16777216"
    and "\<bar>pixel_v\<bar> \<le> (19 * g + 7) / 16777216"
proof -
  have cm: "\<bar>fl (fl c * g) - c * g\<bar> \<le> (4 * g + 1) / 16777216" "\<bar>c * g\<bar> \<le> g"
    if "\<bar>c\<bar> \<le> 1" for c
    using that round_const_mul [OF r that g] abs_const_mul [OF that g(1)] by simp_all
  have c: "\<bar>0.299::real\<bar> \<le> 1" "\<bar>0.587::real\<bar> \<le> 1" "\<bar>0.114::real\<bar> \<le> 1"
    "\<bar>- 0.14713::real\<bar> \<le> 1" "\<bar>0.28886::real\<bar> \<le> 1" "\<bar>0.436::real\<bar> \<le> 1"
    "\<bar>0.615::real\<bar> \<le> 1" "\<bar>0.51499::real\<bar> \<le> 1" "\<bar>0.10001::real\<bar> \<le> 1"
    by simp_all
  from yuv have py: "pixel_y = fl (fl (fl (fl 0.299 * g) + fl (fl 0.587 * g)) + fl (fl 0.114 * g))"
    and pu: "pixel_u = fl (fl (fl (fl (- 0.14713) * g) - fl (fl 0.28886 * g)) + fl (fl 0.436 * g))"
    and pv: "pixel_v = fl (fl (fl (fl 0.615 * g) - fl (fl 0.51499 * g)) - fl (fl 0.10001 * g))"
    by (simp_all add: rgb_to_yuv_def)
  have "\<bar>pixel_y - (0.299 * g + 0.587 * g + 0.114 * g)\<bar> \<le> (19 * g + 7) / 16777216"
    unfolding py
    by (rule three_terms(1) [OF r cm(1) [OF c(1)] cm(1) [OF c(2)] cm(1) [OF c(3)]
          cm(2) [OF c(1)] cm(2) [OF c(2)] cm(2) [OF c(3)] g])
  moreover have "0.299 * g + 0.587 * g + 0.114 * g = g" by (simp add: algebra_simps)
  ultimately show "\<bar>pixel_y - g\<bar> \<le> (19 * g + 7) / 16777216" by simp
  have "\<bar>pixel_u - ((- 0.14713) * g - 0.28886 * g + 0.436 * g)\<bar> \<le> (19 * g + 7) / 16777216"
    unfolding pu
    by (rule three_terms(2) [OF r cm(1) [OF c(4)] cm(1) [OF c(5)] cm(1) [OF c(6)]
          cm(2) [OF c(4)] cm(2) [OF c(5)] cm(2) [OF c(6)] g])
  moreover have "(- 0.14713) * g - 0.28886 * g + 0.436 * g = g / 100000" by (simp add: algebra_simps)
  ultimately show "\<bar>pixel_u - g / 100000\<bar> \<le> (19 * g + 7) / 16777216" by simp
  have "\<bar>pixel_v - (0.615 * g - 0.51499 * g - 0.10001 * g)\<bar> \<le> (19 * g + 7) / 16777216"
    unfolding pv
    by (rule three_terms(3) [OF r cm(1) [OF c(7)] cm(1) [OF c(8)] cm(1) [OF c(9)]
          cm(2) [OF c(7)] cm(2) [OF c(8)] cm(2) [OF c(9)] g])
  moreover have "0.615 * g - 0.51499 * g - 0.10001 * g = 0" by (simp add: algebra_simps)
  ultimately show "\<bar>pixel_v\<bar> \<le> (19 * g + 7) / 16777216" by simp
qed

lemma np_clip_inside: "lo \<le> x \<Longrightarrow> x \<le> hi \<Longrightarrow> np_clip x lo hi = x"
  by (simp add: np_clip_def)

lemma rounding_small:
  assumes r: "rounding fs" and t: "\<bar>t\<bar> \<le> 2 / 5"
  shows "\<bar>fs t\<bar> \<le> 1 / 2"
proof -
  have "(2 / 5::real) \<le> 2 ^ 100" by simp
  with t have "\<bar>t\<bar> \<le> 2 ^ 100" by linarith
  from rounding_err [OF r this] t show ?thesis by argo
qed

lemma coord_near:
  assumes r: "rounding fs" and z: "\<bar>z - real_of_int c\<bar> \<le> 1 / 2"
    and c: "1 \<le> c" "c \<le> 50000" and n: "c + 2 \<le> n"
  shows "py_int (np_clip (fs z) 0 (real_of_int (n - 1))) = c - 1 \<or>
         py_int (np_clip (fs z) 0 (real_of_int (n - 1))) = c"
proof -
  define rc where "rc = real_of_int c"
  have rc: "1 \<le> rc" "rc \<le> 50000" using c by (simp_all add: rc_def)
  have zr: "rc - 1 \<le> z" "z \<le> rc + 1 / 2" using z unfolding rc_def by argo+
  have "fs (real_of_int (c - 1)) = real_of_int (c - 1)"
    using c by (intro rounding_int [OF r]) simp
  moreover have "fs (real_of_int (c - 1)) \<le> fs z"
    using zr(1) by (intro rounding_mono [OF r]) (simp add: rc_def)
  ultimately have lo: "rc - 1 \<le> fs z" by (simp add: rc_def)
  have az: "\<bar>z\<bar> \<le> 50001" using zr rc by argo
  have "(50001::real) \<le> 2 ^ 100" by simp
  with az have "\<bar>z\<bar> \<le> 2 ^ 100" by linarith
  from rounding_err [OF r this] az zr(2) have hi: "fs z < rc + 1" by argo
  have nn: "rc + 1 \<le> real_of_int (n - 1)"
  proof -
    have "c + 1 \<le> n - 1" using n by simp
    then have "real_of_int (c + 1) \<le> real_of_int (n - 1)" by (simp only: of_int_le_iff)
    then show ?thesis by (simp add: rc_def)
  qed
  have clip: "np_clip (fs z) 0 (real_of_int (n - 1)) = fs z"
    using lo hi nn rc by (intro np_clip_inside) argo+
  have nonneg: "0 \<le> fs z" using lo rc by argo
  have "real_of_int (c - 1) \<le> fs z" using lo by (simp add: rc_def)
  then have f1: "c - 1 \<le> \<lfloor>fs z\<rfloor>" by (simp only: le_floor_iff)
  have "fs z < real_of_int (c + 1)" using hi by (simp add: rc_def)
  then have f2: "\<lfloor>fs z\<rfloor> < c + 1" by (simp only: floor_less_iff)
  from f1 f2 have "\<lfloor>fs z\<rfloor> = c - 1 \<or> \<lfloor>fs z\<rfloor> = c" by linarith
  then show ?thesis unfolding clip using nonneg by (simp add: py_int_def)
qed

lemma gray_scaled_small:
  assumes g: "0 \<le> g" and s: "1 \<le> s" "s \<le> 33334" and gs: "g * s \<le> 10000"
    and v: "\<bar>v - k * g\<bar> \<le> (19 * g + 7) / 16777216" and k: "0 \<le> k" "k \<le> 1 / 100000"
  shows "\<bar>v * s\<bar> \<le> 2 / (5::real)"
proof -
  have "\<bar>v\<bar> \<le> k * g + (19 * g + 7) / 16777216"
  proof -
    have "0 \<le> k * g" using k g by simp
    with v show ?thesis by argo
  qed
  moreover have "k * g \<le> g / 100000"
    using mult_right_mono [OF k(2) g] by simp
  ultimately have "\<bar>v\<bar> \<le> g / 100000 + (19 * g + 7) / 16777216" by argo
  moreover have "0 \<le> s" using s by argo
  ultimately have "\<bar>v\<bar> * s \<le> (g / 100000 + (19 * g + 7) / 16777216) * s"
    by (rule mult_right_mono)
  also have "\<dots> = (g * s) / 100000 + (19 * (g * s) + 7 * s) / 16777216"
    by (simp add: algebra_simps add_divide_distrib)
  also have "\<dots> \<le> 2 / 5"
  proof -
    define q where "q = g * s"
    have "q \<le> 10000" using gs by (simp add: q_def)
    with s(2) have "q / 100000 + (19 * q + 7 * s) / 16777216 \<le> 2 / 5" by argo
    then show ?thesis by (simp add: q_def)
  qed
  finally have "\<bar>v\<bar> * s \<le> 2 / 5" .
  moreover have "\<bar>v * s\<bar> = \<bar>v\<bar> * s" using s by (simp add: abs_mult)
  ultimately show ?thesis by simp
qed

text \<open>
  Claim C2, amended. For a uniform grey pixel \<open>R = G = B = g\<close>, on a canvas between 3 and
  100000 pixels wide and high and with \<open>g * scale \<le> 10000\<close>, whatever the rounding of the
  float arithmetic: a plotted mark lands within one pixel of the centre, in column
  \<open>center_x - 1\<close> or \<open>center_x\<close> and in row \<open>center_y - 1\<close> or \<open>center_y\<close>. It need not be the
  centre itself: the coefficients of \<open>U\<close> add up to \<open>0.00001\<close>, not to \<open>0\<close>, and \<open>int()\<close>
  truncates.
\<close>

theorem gray_mark_near_center:
  assumes "rounding fl" and "rounding fs"
    and "3 \<le> w" and "w \<le> 100000" and "3 \<le> h" and "h \<le> 100000"
    and "0 \<le> g" and "g * real_of_int (min w h div 3) \<le> 10000"
    and "vectorscope_coords fl fs (w, h) (g, g, g) = Some (x_coord, y_coord)"
  shows "(x_coord = w div 2 - 1 \<or> x_coord = w div 2) \<and>
         (y_coord = h div 2 - 1 \<or> y_coord = h div 2)"
proof -
  obtain pixel_y pixel_u pixel_v where yuv: "rgb_to_yuv fl (g, g, g) = (pixel_y, pixel_u, pixel_v)"
    by (cases "rgb_to_yuv fl (g, g, g)")
  define scale where "scale = min w h div 3"
  define s where "s = real_of_int scale"
  have sc: "1 \<le> scale" "scale \<le> 33334" using assms(3-6) unfolding scale_def by linarith+
  have s: "1 \<le> s" "s \<le> 33334" using sc by (simp_all add: s_def)
  have gs: "g * s \<le> 10000" using assms(8) by (simp add: s_def scale_def)
  have g: "0 \<le> g" by fact
  have "g * 1 \<le> g * s" using s(1) g by (rule mult_left_mono)
  with gs have g2: "g \<le> 1000000" by simp
  note err = gray_yuv_err [OF assms(1) g g2 yuv]
  have vs: "\<bar>pixel_v * s\<bar> \<le> 2 / 5"
    using err(3) by (intro gray_scaled_small [OF g s gs, of _ 0]) simp_all
  have us: "\<bar>pixel_u * s\<bar> \<le> 2 / 5"
    using err(2) by (intro gray_scaled_small [OF g s gs, of _ "1 / 100000"]) simp_all
  have zx: "\<bar>(real_of_int (w div 2) + fs (pixel_v * s)) - real_of_int (w div 2)\<bar> \<le> 1 / 2"
    using rounding_small [OF assms(2) vs] by simp
  have zy: "\<bar>(real_of_int (h div 2) - fs (pixel_u * s)) - real_of_int (h div 2)\<bar> \<le> 1 / 2"
    using rounding_small [OF assms(2) us] by simp
  have cw: "1 \<le> w div 2" "w div 2 \<le> 50000" "w div 2 + 2 \<le> w" using assms(3,4) by linarith+
  have ch: "1 \<le> h div 2" "h div 2 \<le> 50000" "h div 2 + 2 \<le> h" using assms(5,6) by linarith+
  note x = coord_near [OF assms(2) zx cw]
  note y = coord_near [OF assms(2) zy ch]
  from assms(9) have
    "x_coord = py_int (np_clip (fs (real_of_int (w div 2) + fs (pixel_v * s))) 0 (real_of_int (w - 1)))"
    "y_coord = py_int (np_clip (fs (real_of_int (h div 2) - fs (pixel_u * s))) 0 (real_of_int (h - 1)))"
    by (simp_all add: vectorscope_coords_def yuv Let_def s_def scale_def split: if_splits)
  with x y show ?thesis by simp
qed

lemma exact_gray_yuv: "rgb_to_yuv (\<lambda>x. x) (g, g, g) = (g, g / 100000, 0)"
  by (simp add: rgb_to_yuv_def algebra_simps)

text \<open>
  Claim C2, amended, in exact arithmetic for the grey \<open>0.5\<close> on the default canvas
  \<open>(480, 540)\<close>: the mark is at \<open>(240, 269)\<close>.
\<close>

theorem gray_mark_near_center_witness:
  "rounding (\<lambda>x. x) \<and> (3::int) \<le> 480 \<and> (480::int) \<le> 100000 \<and> (3::int) \<le> 540 \<and>
   (540::int) \<le> 100000 \<and> (0::real) \<le> 0.5 \<and> 0.5 * real_of_int (min 480 540 div 3) \<le> 10000 \<and>
   vectorscope_coords (\<lambda>x. x) (\<lambda>x. x) (480, 540) (0.5, 0.5, 0.5) = Some (240, 269) \<and>
   ((240::int) = 480 div 2 - 1 \<or> (240::int) = 480 div 2) \<and>
   ((269::int) = 540 div 2 - 1 \<or> (269::int) = 540 div 2)"
proof -
  have r: "rounding (\<lambda>x. x)" by (rule rounding_id)
  have a: "(3::int) \<le> 480" "(480::int) \<le> 100000" "(3::int) \<le> 540" "(540::int) \<le> 100000"
    "(0::real) \<le> 0.5" "0.5 * real_of_int (min 480 540 div 3) \<le> 10000"
    by simp_all
  have c: "vectorscope_coords (\<lambda>x. x) (\<lambda>x. x) (480, 540) (0.5, 0.5, 0.5) = Some (240, 269)"
    by (simp add: vectorscope_coords_def exact_gray_yuv np_clip_def py_int_def Let_def)
  from gray_mark_near_center [OF r r a c] r a c show ?thesis by blast
qed

lemma white_mark_row:
  assumes r1: "rounding fl" and r2: "rounding fs"
  shows "\<exists>x_coord y_coord. vectorscope_coords fl fs (480, 540) (1, 1, 1) = Some (x_coord, y_coord)
           \<and> y_coord < 270"
proof -
  obtain pixel_y pixel_u pixel_v where yuv: "rgb_to_yuv fl (1, 1, 1) = (pixel_y, pixel_u, pixel_v)"
    by (cases "rgb_to_yuv fl (1, 1, 1)")
  have "\<bar>pixel_y - 1\<bar> \<le> (19 * 1 + 7) / 16777216" "\<bar>pixel_u - 1 / 100000\<bar> \<le> (19 * 1 + 7) / 16777216"
    using gray_yuv_err [OF r1 _ _ yuv] by simp_all
  then have py: "9 / 10 < pixel_y" and pu: "8 / 1000000 \<le> pixel_u" "pixel_u \<le> 12 / 1000000"
    by argo+
  have th: "fs 0.01 < 9 / 10"
  proof -
    have "\<bar>0.01::real\<bar> \<le> 2 ^ 100" by simp
    from rounding_err [OF r2 this] show ?thesis by simp argo
  qed
  define t0 where "t0 = pixel_u * 160"
  have t0: "128 / 100000 \<le> t0" "t0 \<le> 192 / 100000" using pu unfolding t0_def by argo+
  have "\<bar>t0\<bar> \<le> 2 ^ 100"
  proof -
    have "(1::real) \<le> 2 ^ 100" by simp
    with t0 show ?thesis by argo
  qed
  from rounding_err [OF r2 this] t0 have t: "127 / 100000 \<le> fs t0" "fs t0 \<le> 2 / 1000" by argo+
  define z where "z = 270 - fs t0"
  have z: "269 \<le> z" "z \<le> 270 - 127 / 100000" using t unfolding z_def by argo+
  have "\<bar>z\<bar> \<le> 2 ^ 100"
  proof -
    have "(270::real) \<le> 2 ^ 100" by simp
    with z show ?thesis by argo
  qed
  from rounding_err [OF r2 this] z have hi: "fs z < 270" by argo
  have "fs (real_of_int 269) = real_of_int 269" by (intro rounding_int [OF r2]) simp
  moreover have "fs (real_of_int 269) \<le> fs z" using z(1) by (intro rounding_mono [OF r2]) simp
  ultimately have lo: "269 \<le> fs z" by simp
  have clip: "np_clip (fs z) 0 539 = fs z" using lo hi by (intro np_clip_inside) argo+
  have fl: "\<lfloor>fs z\<rfloor> < 270" using hi by (simp add: floor_less_iff)
  have "vectorscope_coords fl fs (480, 540) (1, 1, 1)
      = Some (py_int (np_clip (fs (240 + fs (pixel_v * 160))) 0 479), py_int (fs z))"
    using py th by (simp add: vectorscope_coords_def yuv Let_def z_def t0_def clip [unfolded z_def t0_def])
  moreover have "py_int (fs z) < 270" using lo fl by (simp add: py_int_def)
  ultimately show ?thesis by blast
qed

text \<open>
  Claim C2 says that the marks of a uniform grey frame land at \<open>(center_x, center_y)\<close>
  because \<open>U = V = 0\<close>. On the default canvas \<open>(480, 540)\<close> the centre row is 270. A white
  pixel is plotted at \<open>(240, 269)\<close> in exact arithmetic, and under no rounding is it left
  out or plotted in row 270.
\<close>

theorem gray_mark_misses_center:
  "vectorscope_coords (\<lambda>x. x) (\<lambda>x. x) (480, 540) (1, 1, 1) = Some (240, 269) \<and>
   (540 div 2 :: int) = 270 \<and>
   \<not> (\<exists>fl fs. rounding fl \<and> rounding fs \<and>
         (vectorscope_coords fl fs (480, 540) (1, 1, 1) = None \<or>
          (\<exists>x_coord. vectorscope_coords fl fs (480, 540) (1, 1, 1) = Some (x_coord, 270))))"
proof (intro conjI notI)
  show "vectorscope_coords (\<lambda>x. x) (\<lambda>x. x) (480, 540) (1, 1, 1) = Some (240, 269)"
    by (simp add: vectorscope_coords_def exact_gray_yuv np_clip_def py_int_def Let_def)
  show "(540 div 2 :: int) = 270" by simp
next
  assume "\<exists>fl fs. rounding fl \<and> rounding fs \<and>
         (vectorscope_coords fl fs (480, 540) (1, 1, 1) = None \<or>
          (\<exists>x_coord. vectorscope_coords fl fs (480, 540) (1, 1, 1) = Some (x_coord, 270)))"
  then obtain fl fs where r: "rounding fl" "rounding fs"
    and c: "vectorscope_coords fl fs (480, 540) (1, 1, 1) = None \<or>
          (\<exists>x_coord. vectorscope_coords fl fs (480, 540) (1, 1, 1) = Some (x_coord, 270))"
    by blast
  from white_mark_row [OF r] obtain x y
    where "vectorscope_coords fl fs (480, 540) (1, 1, 1) = Some (x, y)" "y < 270" by blast
  with c show False by auto
qed

subsection \<open>Claims about the waveform\<close>

text \<open>
  The grid only assigns grey colours, so it keeps a grey pixel grey, and the 0% line of a
  canvas of at least 20 rows is the row \<open>canvas_height - 20\<close>. The grid is an overlay: it
  paints the same positions with the same colours whatever the canvas under it.
\<close>

lemma set_rows_gray:
  "gray_pix col \<Longrightarrow> gray_pix (cv pos) \<Longrightarrow> gray_pix (set_rows lo hi col cv pos)"
  by (cases pos) (simp add: set_rows_def)

lemma set_column_gray:
  "gray_pix col \<Longrightarrow> gray_pix (cv pos) \<Longrightarrow> gray_pix (set_column x col cv pos)"
  by (cases pos) (simp add: set_column_def)

lemma gray_pix_same [simp]: "gray_pix (v, v, v)"
  by (simp add: gray_pix_def)

lemma grid_row_step_gray:
  "gray_pix (cv pos) \<Longrightarrow> gray_pix (grid_row_step fd sz percent cv pos)"
  by (simp add: grid_row_step_def Let_def set_rows_gray)

lemma grid_column_step_gray:
  "gray_pix (cv pos) \<Longrightarrow> gray_pix (grid_column_step fd sz i cv pos)"
  by (simp add: grid_column_step_def Let_def set_column_gray)

lemma fold_gray:
  assumes "\<And>x cv. gray_pix (cv pos) \<Longrightarrow> gray_pix (step x cv pos)"
  shows "gray_pix (cv pos) \<Longrightarrow> gray_pix (fold step xs cv pos)"
  by (induction xs arbitrary: cv) (simp_all add: assms)

lemma grid_markers_gray:
  "gray_pix (cv pos) \<Longrightarrow> gray_pix (grid_markers fd sz cv pos)"
  by (simp add: grid_markers_def Let_def set_rows_gray)

lemma grid_row_zero:
  assumes "rounding fd" "20 \<le> H" "H \<le> 16777216"
  shows "grid_row_step fd (W, H) 0 cv (H - 20, c) = (48, 48, 48)"
proof -
  have "fd (real_of_int (H - 40)) = real_of_int (H - 40)"
    using assms(2,3) by (intro rounding_int [OF assms(1)]) linarith
  then have "py_int (fd (real_of_int (H - 40) * fd (1 - fd (0 / 100)))) = H - 40"
    by (simp add: rounding_zero [OF assms(1)] rounding_one [OF assms(1)] py_int_def)
  then show ?thesis
    using assms(2) by (simp add: grid_row_step_def Let_def set_rows_def)
qed

lemma draw_waveform_grid_zero_row_gray:
  assumes "rounding fd" "20 \<le> H" "H \<le> 16777216"
  shows "gray_pix (draw_waveform_grid fd (W, H) cv (H - 20, c))"
proof -
  have "gray_pix (grid_row_step fd (W, H) 0 cv (H - 20, c))"
    by (simp add: grid_row_zero [OF assms])
  then have "gray_pix (fold (grid_row_step fd (W, H)) [25, 50, 75, 100]
                (grid_row_step fd (W, H) 0 cv) (H - 20, c))"
    by (rule fold_gray [rotated]) (rule grid_row_step_gray)
  then have "gray_pix (fold (grid_row_step fd (W, H)) [0, 25, 50, 75, 100] cv (H - 20, c))"
    by simp
  then have "gray_pix (fold (grid_column_step fd (W, H)) [1, 2, 3, 4, 5, 6, 7]
                (fold (grid_row_step fd (W, H)) [0, 25, 50, 75, 100] cv) (H - 20, c))"
    by (rule fold_gray [rotated]) (rule grid_column_step_gray)
  then show ?thesis
    unfolding draw_waveform_grid_def by (rule grid_markers_gray)
qed

lemma overlay_overlay:
  "overlay m2 (overlay m1 cv) = overlay (\<lambda>pos. case m2 pos of Some col \<Rightarrow> Some col | None \<Rightarrow> m1 pos) cv"
  by (auto simp: overlay_def split: option.splits)

lemma overlay_none: "cv = overlay (\<lambda>pos. None) cv"
  by (simp add: overlay_def)

lemma set_rows_overlay:
  "set_rows lo hi col cv = overlay (\<lambda>(r, c). if lo \<le> r \<and> r < hi then Some col else None) cv"
  by (auto simp: set_rows_def overlay_def)

lemma set_column_overlay:
  "set_column x col cv = overlay (\<lambda>(r, c). if c = x then Some col else None) cv"
  by (auto simp: set_column_def overlay_def)

lemma grid_row_step_overlay: "\<exists>m. \<forall>cv. grid_row_step fd sz percent cv = overlay m cv"
proof (cases "0 \<le> py_int (fd (real_of_int (snd sz - 40) * fd (1 - fd (percent / 100)))) + 20 \<and>
    py_int (fd (real_of_int (snd sz - 40) * fd (1 - fd (percent / 100)))) + 20 < snd sz")
  case True
  then show ?thesis
    by (simp add: grid_row_step_def Let_def set_rows_overlay) blast
next
  case False
  then have "\<forall>cv. grid_row_step fd sz percent cv = overlay (\<lambda>pos. None) cv"
    by (auto simp: grid_row_step_def Let_def overlay_def)
  then show ?thesis by blast
qed

lemma grid_column_step_overlay: "\<exists>m. \<forall>cv. grid_column_step fd sz i cv = overlay m cv"
proof (cases "py_int (fd (real_of_int (fst sz * i) / 8)) < fst sz")
  case True
  then show ?thesis
    by (simp add: grid_column_step_def Let_def set_column_overlay) blast
next
  case False
  then have "\<forall>cv. grid_column_step fd sz i cv = overlay (\<lambda>pos. None) cv"
    by (auto simp: grid_column_step_def Let_def overlay_def)
  then show ?thesis by blast
qed

lemma fold_overlay:
  assumes "\<And>x. \<exists>m. \<forall>cv. step x cv = overlay m cv"
  shows "\<exists>m. \<forall>cv. fold step xs cv = overlay m cv"
proof (induction xs)
  case Nil
  have "\<forall>cv. fold step [] cv = overlay (\<lambda>pos. None) cv" by (simp add: overlay_def)
  then show ?case by blast
next
  case (Cons x xs)
  from assms [of x] obtain m1 where m1: "\<forall>cv. step x cv = overlay m1 cv" by blast
  from Cons obtain m2 where m2: "\<forall>cv. fold step xs cv = overlay m2 cv" by blast
  have "\<forall>cv. fold step (x # xs) cv =
      overlay (\<lambda>pos. case m2 pos of Some col \<Rightarrow> Some col | None \<Rightarrow> m1 pos) cv"
    by (simp add: m1 m2 overlay_overlay)
  then show ?case by blast
qed

lemma grid_markers_overlay: "\<exists>m. \<forall>cv. grid_markers fd sz cv = overlay m cv"
  by (simp add: grid_markers_def Let_def set_rows_overlay overlay_overlay) blast

lemma draw_waveform_grid_overlay: "\<exists>m. \<forall>cv. draw_waveform_grid fd sz cv = overlay m cv"
proof -
  obtain m1 where m1: "\<forall>cv. fold (grid_row_step fd sz) [0, 25, 50, 75, 100] cv = overlay m1 cv"
    using fold_overlay [of "grid_row_step fd sz", OF grid_row_step_overlay] by blast
  obtain m2 where m2: "\<forall>cv. fold (grid_column_step fd sz) [1, 2, 3, 4, 5, 6, 7] cv = overlay m2 cv"
    using fold_overlay [of "grid_column_step fd sz", OF grid_column_step_overlay] by blast
  obtain m3 where m3: "\<forall>cv. grid_markers fd sz cv = overlay m3 cv"
    using grid_markers_overlay by blast
  have "\<forall>cv. draw_waveform_grid fd sz cv =
      overlay (\<lambda>pos. case m3 pos of Some col \<Rightarrow> Some col
                 | None \<Rightarrow> (case m2 pos of Some col \<Rightarrow> Some col | None \<Rightarrow> m1 pos)) cv"
    unfolding draw_waveform_grid_def by (simp only: m1 m2 m3 overlay_overlay) simp
  then show ?thesis by blast
qed

lemma grid_present:
  assumes "draw_waveform_grid fd sz (\<lambda>p. (0, 0, 0)) pos \<noteq> (0, 0, 0)"
  shows "draw_waveform_grid fd sz cv pos = draw_waveform_grid fd sz (\<lambda>p. (0, 0, 0)) pos"
proof -
  from draw_waveform_grid_overlay [of fd sz] obtain m
    where m: "\<forall>cv. draw_waveform_grid fd sz cv = overlay m cv" by blast
  have "m pos \<noteq> None"
  proof
    assume "m pos = None"
    then have "draw_waveform_grid fd sz (\<lambda>p. (0, 0, 0)) pos = (0, 0, 0)"
      by (simp add: m overlay_def)
    with assms show False by simp
  qed
  then obtain col where "m pos = Some col" by blast
  then show ?thesis by (simp add: m overlay_def)
qed

text \<open>
  The trace loop: on a canvas with at least one row every sample has a row, and the
  columns that the rounded \<open>np.linspace\<close> selects are columns of the frame, so the loop
  raises no error.
\<close>

lemma waveform_y_position_range:
  assumes "1 \<le> H"
  shows "0 \<le> waveform_y_position fl H luma \<and> waveform_y_position fl H luma < H"
  using assms by (simp add: waveform_y_position_def Let_def)

lemma np_index_inside: "0 \<le> i \<Longrightarrow> i < n \<Longrightarrow> np_index n i = Inr i"
  by (simp add: np_index_def)

lemma trace_column_ok:
  assumes "1 \<le> H" "0 \<le> x" "x < W"
  shows "\<exists>cv'. trace_column fl (W, H) x lumas cv = Inr cv'"
proof (induction lumas arbitrary: cv)
  case Nil
  then show ?case by simp
next
  case (Cons luma rest)
  have y: "np_index H (waveform_y_position fl H luma) = Inr (waveform_y_position fl H luma)"
    using waveform_y_position_range [OF assms(1), of fl luma] by (intro np_index_inside) simp_all
  have x: "np_index W x = Inr x" using assms by (intro np_index_inside)
  show ?case using Cons by (simp add: Let_def y x)
qed

lemma trace_columns_ok:
  assumes "1 \<le> H" "\<forall>(i, img_x) \<in> set items. 0 \<le> img_x \<and> img_x < int (width f)"
  shows "\<exists>cv'. trace_columns fl f (W, H) items cv = Inr cv'"
  using assms(2)
proof (induction items arbitrary: cv)
  case Nil
  then show ?case by simp
next
  case (Cons item rest)
  obtain i img_x where item: "item = (i, img_x)" by (cases item)
  show ?case
  proof (cases "int i \<ge> W")
    case True
    then show ?thesis by (simp add: item)
  next
    case False
    have col: "np_index (int (width f)) img_x = Inr img_x"
      using Cons.prems item by (intro np_index_inside) auto
    have tc: "\<exists>cv1. trace_column fl (W, H) (int i) lumas cv = Inr cv1" for lumas
      using False by (intro trace_column_ok [OF assms(1)]) simp_all
    have ih: "\<exists>cv2. trace_columns fl f (W, H) rest cv1 = Inr cv2" for cv1
      using Cons.IH [of cv1] Cons.prems by auto
    show ?thesis
      using False by (simp add: item col) (metis tc ih sum.case(2))
  qed
qed

lemma rounding_exact_bound:
  assumes "rounding fd" "\<bar>x\<bar> \<le> 16777216"
  shows "\<bar>fd x - x\<bar> \<le> \<bar>x\<bar> / 16777216 + 1 / 2 ^ 150"
proof -
  have "(16777216::real) \<le> 2 ^ 127" by simp
  with assms(2) have "\<bar>x\<bar> \<le> 2 ^ 127" by linarith
  with assms(1) show ?thesis by (simp add: rounding_def)
qed

lemma linspace_step_bound:
  assumes r: "rounding fd" and s: "1 \<le> stop" "stop \<le> 16777216"
    and n: "2 \<le> N + 1" "N \<le> 8388608" and i: "0 \<le> i" "i \<le> N - 1"
  shows "i * fd (stop / N) \<le> (stop::real)"
proof -
  define q where "q = stop / N"
  have N: "1 \<le> N" using n by linarith
  have q0: "0 \<le> q" using s N by (simp add: q_def)
  have qs: "N * q = stop" using N by (simp add: q_def)
  have qN: "1 / 8388608 \<le> q"
  proof -
    have "1 / 8388608 \<le> 1 / N" using N n(2) by (simp add: frac_le)
    also have "\<dots> \<le> stop / N" using s(1) N by (simp add: divide_right_mono)
    finally show ?thesis by (simp add: q_def)
  qed
  have qle: "q \<le> stop" using s N by (simp add: q_def field_simps)  
  have "\<bar>q\<bar> \<le> 16777216" using q0 qle s(2) by linarith
  from rounding_exact_bound [OF r this] q0
  have fq: "fd q \<le> q + q / 16777216 + 1 / 2 ^ 150" by argo
  have "fd 0 \<le> fd q" using q0 by (rule rounding_mono [OF r])
  then have fq0: "0 \<le> fd q" by (simp add: rounding_zero [OF r])
  have "i * fd q \<le> (N - 1) * fd q" using i(2) fq0 by (rule mult_right_mono)
  also have "\<dots> \<le> (N - 1) * (q + q / 16777216 + 1 / 2 ^ 150)"
    using fq N by (intro mult_left_mono) simp_all
  also have "\<dots> = (N - 1) * q + q * ((N - 1) / 16777216) + (N - 1) * (1 / 2 ^ 150)"
    by (simp add: distrib_left)
  also have "\<dots> = (stop - q) + q * ((N - 1) / 16777216) + (N - 1) * (1 / 2 ^ 150)"
  proof -
    have "(N - 1) * q = stop - q" using qs by (simp add: left_diff_distrib)
    then show ?thesis by (simp only:)
  qed
  also have "\<dots> \<le> (stop - q) + q * (1 / 2) + 8388608 * (1 / 2 ^ 150)"
  proof -
    have "(N - 1) / 16777216 \<le> 1 / 2" using n(2) by simp
    then have "q * ((N - 1) / 16777216) \<le> q * (1 / 2)" using q0 by (rule mult_left_mono)
    moreover have "(N - 1) * (1 / 2 ^ 150) \<le> 8388608 * (1 / 2 ^ 150)"
      using n(2) by (intro mult_right_mono) simp_all
    ultimately show ?thesis by linarith
  qed
  also have "\<dots> \<le> stop"
  proof -
    have "(8388608::real) * (1 / 2 ^ 150) \<le> 1 / 16777216" by simp
    with qN show ?thesis by argo
  qed
  finally show ?thesis by (simp add: q_def)
qed

lemma np_linspace_int_range:
  assumes r: "rounding fd" and w: "1 \<le> w" "w \<le> 16777216" and n: "n \<le> 8388608"
    and v: "v \<in> set (np_linspace_int fd (w - 1) n)"
  shows "0 \<le> v \<and> v < w"
proof (cases "n = 1")
  case True
  with v w show ?thesis by (simp add: np_linspace_int_def)
next
  case False
  with v obtain i where i: "i < n"
    "v = (if i = n - 1 then w - 1 else \<lfloor>fd (real i * fd (real_of_int (w - 1) / real (n - 1)))\<rfloor>)"
    by (auto simp: np_linspace_int_def)
  show ?thesis
  proof (cases "i = n - 1")
    case True
    with i w show ?thesis by simp
  next
    case ne: False
    with i False have n2: "2 \<le> n" "i \<le> n - 2" by linarith+
    define stop where "stop = real_of_int (w - 1)"
    define N where "N = real (n - 1)"
    have stop: "0 \<le> stop" "stop \<le> 16777216" using w by (simp_all add: stop_def)
    have N: "2 \<le> N + 1" "N \<le> 8388608" using n2 n by (simp_all add: N_def)
    have ri: "0 \<le> real i" "real i \<le> N - 1" using n2 by (simp_all add: N_def)
    have f0: "0 \<le> fd (stop / N)"
    proof -
      have "fd 0 \<le> fd (stop / N)" using stop N by (intro rounding_mono [OF r]) simp
      then show ?thesis by (simp add: rounding_zero [OF r])
    qed
    have up: "real i * fd (stop / N) \<le> stop"
    proof (cases "1 \<le> stop")
      case True
      from linspace_step_bound [OF r True stop(2) N ri] show ?thesis .
    next
      case False
      then have "w - 1 = 0" using w(1) by (simp add: stop_def)
      then have "stop = 0" by (simp add: stop_def)
      then show ?thesis by (simp add: rounding_zero [OF r])
    qed
    have lo: "0 \<le> fd (real i * fd (stop / N))"
    proof -
      have "fd 0 \<le> fd (real i * fd (stop / N))"
        using f0 ri(1) by (intro rounding_mono [OF r]) simp
      then show ?thesis by (simp add: rounding_zero [OF r])
    qed
    have hi: "fd (real i * fd (stop / N)) \<le> real_of_int (w - 1)"
    proof -
      have "fd (real i * fd (stop / N)) \<le> fd (real_of_int (w - 1))"
        using up by (intro rounding_mono [OF r]) (simp add: stop_def)
      moreover have "fd (real_of_int (w - 1)) = real_of_int (w - 1)"
        using w by (intro rounding_int [OF r]) simp
      ultimately show ?thesis by simp
    qed
    have "0 \<le> \<lfloor>fd (real i * fd (stop / N))\<rfloor>" using lo by simp
    moreover have "\<lfloor>fd (real i * fd (stop / N))\<rfloor> \<le> \<lfloor>real_of_int (w - 1)\<rfloor>"
      using hi by (rule floor_mono)
    ultimately show ?thesis using i(2) ne by (simp add: stop_def N_def)
  qed
qed

text \<open>
  The trace of a black frame: every sample has luminance 0 and the row
  \<open>canvas_height - 20\<close>, so each canvas column is tinted once for every sample of its
  frame column, in that row and nowhere else.
\<close>

lemma py_range_step_lt:
  assumes "1 \<le> s" "r \<in> set (py_range_step n s)"
  shows "r < n"
proof -
  from assms(2) obtain k where k: "k < (n + s - 1) div s" "r = k * s"
    by (auto simp: py_range_step_def)
  from k(1) have "Suc k \<le> (n + s - 1) div s" by simp
  then have "Suc k * s \<le> (n + s - 1) div s * s" by (rule mult_le_mono1)
  also have "\<dots> \<le> n + s - 1" by simp
  finally have "k * s + s \<le> n + s - 1" by simp
  with assms(1) k(2) show ?thesis by linarith
qed

lemma log_luminance_black: "rounding fl \<Longrightarrow> log_luminance fl (0, 0, 0) = 0"
  by (simp add: log_luminance_def rounding_zero)

lemma black_sampled:
  assumes r: "rounding fl" and z: "all_zero a" and sh: "arr_shape a = [h, w, c]"
    and c: "3 \<le> c" and col: "col < w"
  shows "\<forall>l \<in> set (sampled_luma fl (frame_of a) col). l = 0"
    and "length (sampled_luma fl (frame_of a) col) = length (py_range_step h (max 1 (h div 200)))"
proof -
  have px: "px (frame_of a) row col = (0, 0, 0)" if "row < h" for row
  proof -
    have "in_shape (arr_shape a) [row, col, k]" if "k < 3" for k
      using that \<open>row < h\<close> col c by (simp add: in_shape_def sh)
    then have "elem a [row, col, 0] = 0" "elem a [row, col, 1] = 0" "elem a [row, col, 2] = 0"
      using z by (simp_all add: all_zero_def)
    then show ?thesis by (simp add: frame_of_def)
  qed
  have h: "height (frame_of a) = h" by (simp add: frame_of_def sh)
  show "\<forall>l \<in> set (sampled_luma fl (frame_of a) col). l = 0"
    using py_range_step_lt [of "max 1 (h div 200)" _ h]
    by (auto simp: sampled_luma_def h Let_def px log_luminance_black [OF r])
  show "length (sampled_luma fl (frame_of a) col) = length (py_range_step h (max 1 (h div 200)))"
    by (simp add: sampled_luma_def h Let_def)
qed

lemma waveform_y_black:
  assumes "rounding fl" "20 \<le> H" "H \<le> 16777216"
  shows "waveform_y_position fl H 0 = H - 20"
proof -
  have a: "fl (real_of_int (H - 40)) = real_of_int (H - 40)"
    using assms(2,3) by (intro rounding_int [OF assms(1)]) linarith
  have b: "fl (real_of_int (H - 20)) = real_of_int (H - 20)"
    using assms(2,3) by (intro rounding_int [OF assms(1)]) linarith
  have "real_of_int (H - 40) + 20 = real_of_int (H - 20)" by simp
  then have "fl (fl (fl (1 - np_clip 0 0 1) * real_of_int (H - 40)) + 20) = real_of_int (H - 20)"
    using a b by (simp add: np_clip_def rounding_one [OF assms(1)])
  then have "py_int (fl (fl (fl (1 - np_clip 0 0 1) * real_of_int (H - 40)) + 20)) = H - 20"
    by (simp only: py_int_def) simp
  then show ?thesis
    using assms(2) by (simp add: waveform_y_position_def Let_def)
qed

lemma tint_pow:
  "(trace_tint ^^ n) (0, 0, 0) = (min 255 (16 * n), min 255 (80 * n), min 255 (16 * n))"
  by (induction n) (simp_all add: trace_tint_def min_def)

lemma trace_column_zero:
  assumes r: "rounding fl" and H: "20 \<le> H" "H \<le> 16777216" and x: "0 \<le> x" "x < W"
    and z: "\<forall>l \<in> set lumas. l = 0"
  shows "trace_column fl (W, H) x lumas cv =
           Inr (cv ((H - 20, x) := (trace_tint ^^ length lumas) (cv (H - 20, x))))"
  using z
proof (induction lumas arbitrary: cv)
  case Nil
  then show ?case by simp
next
  case (Cons luma rest)
  then have l0: "luma = 0" and rest: "\<forall>l \<in> set rest. l = 0" by simp_all
  have y: "np_index H (waveform_y_position fl H 0) = Inr (H - 20)"
    using H by (simp add: waveform_y_black [OF r H] np_index_def)
  have xx: "np_index W x = Inr x" using x by (rule np_index_inside)
  show ?case
    by (auto simp add: l0 Let_def y xx Cons.IH [OF rest] funpow_swap1 fun_eq_iff)
qed

lemma trace_columns_black:
  assumes r: "rounding fl" and H: "20 \<le> H" "H \<le> 16777216"
    and z: "\<And>col. col < width f \<Longrightarrow>
              (\<forall>l \<in> set (sampled_luma fl f col). l = 0) \<and> length (sampled_luma fl f col) = n"
  shows "\<forall>x \<in> set xs. 0 \<le> x \<and> x < int (width f) \<Longrightarrow> int k + int (length xs) \<le> W \<Longrightarrow>
         trace_columns fl f (W, H) (enumerate k xs) (traced_row (H - 20) 0 (int k) n)
           = Inr (traced_row (H - 20) 0 (int k + int (length xs)) n)"
proof (induction xs arbitrary: k)
  case Nil
  then show ?case by simp
next
  case (Cons x xs)
  from Cons.prems have x: "0 \<le> x" "x < int (width f)" and kW: "int k < W" by simp_all
  have col: "np_index (int (width f)) x = Inr x" using x by (rule np_index_inside)
  have nx: "nat x < width f" using x by linarith
  note zz = z [OF nx]
  have tc: "trace_column fl (W, H) (int k) (sampled_luma fl f (nat x)) (traced_row (H - 20) 0 (int k) n)
      = Inr ((traced_row (H - 20) 0 (int k) n)
          ((H - 20, int k) := (trace_tint ^^ n) (traced_row (H - 20) 0 (int k) n (H - 20, int k))))"
    using trace_column_zero [OF r H _ kW, of "sampled_luma fl f (nat x)"] zz by simp
  have upd: "(traced_row (H - 20) 0 (int k) n)
          ((H - 20, int k) := (trace_tint ^^ n) (traced_row (H - 20) 0 (int k) n (H - 20, int k)))
      = traced_row (H - 20) 0 (int (Suc k)) n"
  proof (rule ext)
    fix p :: "int \<times> int"
    obtain a b where p: "p = (a, b)" by (cases p)
    have lt: "b < int (Suc k) \<longleftrightarrow> b < int k \<or> b = int k" by auto
    show "((traced_row (H - 20) 0 (int k) n)
          ((H - 20, int k) := (trace_tint ^^ n) (traced_row (H - 20) 0 (int k) n (H - 20, int k)))) p
      = traced_row (H - 20) 0 (int (Suc k)) n p"
      unfolding p traced_row_def by (cases "a = H - 20"; cases "b = int k") (simp_all add: tint_pow lt del: of_nat_Suc)
  qed
  have ih: "trace_columns fl f (W, H) (enumerate (Suc k) xs) (traced_row (H - 20) 0 (int (Suc k)) n)
      = Inr (traced_row (H - 20) 0 (int (Suc k) + int (length xs)) n)"
    using Cons.prems by (intro Cons.IH) simp_all
  have e: "int (Suc k) + int (length xs) = int k + int (length (x # xs))" by simp
  have "trace_columns fl f (W, H) (enumerate k (x # xs)) (traced_row (H - 20) 0 (int k) n)
      = trace_columns fl f (W, H) (enumerate (Suc k) xs) (traced_row (H - 20) 0 (int (Suc k)) n)"
    using kW by (simp add: col tc upd del: of_nat_Suc)
  then show ?case by (simp only: ih e)
qed

lemma length_np_linspace_int: "length (np_linspace_int fd stop n) = n"
  by (simp add: np_linspace_int_def)

lemma waveform_trace_ok:
  assumes r: "rounding fd" and sh: "arr_shape a = [h, w, c]" and c: "3 \<le> c"
    and w: "1 \<le> w" "w \<le> 16777216" and W: "0 \<le> W" "W \<le> 8388608" and H: "1 \<le> H"
  shows "\<exists>cv. waveform_trace fl fd a (W, H) = Inr cv"
proof -
  have "\<forall>(i, img_x) \<in> set (enumerate 0 (np_linspace_int fd (int w - 1) (nat W))).
          0 \<le> img_x \<and> img_x < int (width (frame_of a))"
    using np_linspace_int_range [OF r, of "int w" "nat W"] w W
    by (auto simp: in_set_enumerate_eq frame_of_def sh)
  from trace_columns_ok [OF H this] c show ?thesis
    by (simp add: waveform_trace_def sh Let_def)
qed

lemma waveform_trace_black:
  assumes r: "rounding fl" "rounding fd" and sh: "arr_shape a = [h, w, c]" and c: "3 \<le> c"
    and w: "1 \<le> w" "w \<le> 16777216" and W: "0 \<le> W" "W \<le> 8388608"
    and H: "20 \<le> H" "H \<le> 16777216" and z: "all_zero a"
  shows "waveform_trace fl fd a (W, H)
           = Inr (traced_row (H - 20) 0 W (length (py_range_step h (max 1 (h div 200)))))"
proof -
  define n where "n = length (py_range_step h (max 1 (h div 200)))"
  define xs where "xs = np_linspace_int fd (int w - 1) (nat W)"
  have wf: "width (frame_of a) = w" by (simp add: frame_of_def sh)
  have rng: "\<forall>x \<in> set xs. 0 \<le> x \<and> x < int (width (frame_of a))"
    using np_linspace_int_range [OF r(2), of "int w" "nat W"] w W by (auto simp: xs_def wf)
  have len: "int 0 + int (length xs) \<le> W" using W by (simp add: xs_def length_np_linspace_int)
  have zz: "(\<forall>l \<in> set (sampled_luma fl (frame_of a) col). l = 0) \<and>
      length (sampled_luma fl (frame_of a) col) = n" if "col < width (frame_of a)" for col
    using black_sampled [OF r(1) z sh c, of col] that by (simp add: wf n_def)
  have blank: "(\<lambda>pos. (0, 0, 0)) = traced_row (H - 20) 0 (int 0) n"
    by (rule ext) (auto simp: traced_row_def)
  have "trace_columns fl (frame_of a) (W, H) (enumerate 0 xs) (traced_row (H - 20) 0 (int 0) n)
      = Inr (traced_row (H - 20) 0 (int 0 + int (length xs)) n)"
  proof (rule trace_columns_black [OF r(1) H _ rng len])
    fix col
    assume "col < width (frame_of a)"
    then show "(\<forall>l \<in> set (sampled_luma fl (frame_of a) col). l = 0) \<and>
      length (sampled_luma fl (frame_of a) col) = n"
      by (rule zz)
  qed
  moreover have "int 0 + int (length xs) = W" using W by (simp add: xs_def length_np_linspace_int)
  ultimately have "trace_columns fl (frame_of a) (W, H) (enumerate 0 xs) (\<lambda>pos. (0, 0, 0))
      = Inr (traced_row (H - 20) 0 W n)"
    by (simp only: blank [symmetric])
  then show ?thesis
    using c by (simp add: waveform_trace_def sh Let_def xs_def n_def)
qed

text \<open>
  The 0% grid line assigns the whole row \<open>canvas_height - 20\<close>: two canvases that differ
  in that row only have the same grid picture.
\<close>

lemma grid_row_zero_rows:
  assumes "rounding fd" "20 \<le> H" "H \<le> 16777216"
  shows "grid_row_step fd (W, H) 0 cv = set_rows (H - 20) (H - 20 + 1) (48, 48, 48) cv"
proof -
  have "fd (real_of_int (H - 40)) = real_of_int (H - 40)"
    using assms(2,3) by (intro rounding_int [OF assms(1)]) linarith
  then have "py_int (fd (real_of_int (H - 40) * fd (1 - fd (0 / 100)))) = H - 40"
    by (simp add: rounding_zero [OF assms(1)] rounding_one [OF assms(1)] py_int_def)
  then show ?thesis
    using assms(2) by (simp add: grid_row_step_def Let_def)
qed

lemma grid_hides_zero_row:
  assumes r: "rounding fd" "20 \<le> H" "H \<le> 16777216"
    and same: "\<And>r c. r \<noteq> H - 20 \<Longrightarrow> cv (r, c) = cv' (r, c)"
  shows "draw_waveform_grid fd (W, H) cv = draw_waveform_grid fd (W, H) cv'"
proof -
  have "set_rows (H - 20) (H - 20 + 1) (48, 48, 48) cv
      = set_rows (H - 20) (H - 20 + 1) (48, 48, 48) cv'"
    by (rule ext) (auto simp: set_rows_def same)
  then have s: "grid_row_step fd (W, H) 0 cv = grid_row_step fd (W, H) 0 cv'"
    by (simp only: grid_row_zero_rows [OF r])
  show ?thesis
    by (simp add: draw_waveform_grid_def s)
qed

lemma traced_row_off_row: "r \<noteq> y \<Longrightarrow> traced_row y lo hi n (r, c) = (0, 0, 0)"
  by (simp add: traced_row_def)

lemma gray_to_unit_range: "gray_pix c \<Longrightarrow> \<exists>v. to_unit_range fl c = (v, v, v)"
  by (cases c) (simp add: gray_pix_def to_unit_range_def)

lemma all_zero_unit: "rounding fl \<Longrightarrow> all_zero a \<Longrightarrow> unit_float_array fl a"
  by (simp add: all_zero_def unit_float_array_def rounding_zero)

lemma waveform_trace_empty_canvas:
  assumes "arr_shape a = [h, w, c]" "3 \<le> c"
  shows "waveform_trace fl fd a (0, H) = Inr (\<lambda>pos. (0, 0, 0))"
  using assms by (simp add: waveform_trace_def np_linspace_int_def Let_def)

text \<open>
  Claim C8, amended. The input is converted to \<open>img_array\<close> first; let the conversion
  succeed and give a three-dimensional array of at least one column and three channels,
  and let the canvas have no negative side and, unless it has no column, at least one
  row. (The sizes are bounded by \<open>2^23\<close> canvas columns and \<open>2^24\<close> frame columns and
  canvas rows, the range in which the rounded \<open>np.linspace\<close> and the rounded row formula
  are known to stay in range, whatever the float type.) Then, under every rounding,

  \<^item> the trace loop ends without an error, and \<open>create_waveform\<close> returns an image of
    exactly \<open>size[1]\<close> rows and \<open>size[0]\<close> columns, which is the grid drawn over the traced
    canvas, scaled to the unit range;
  \<^item> every pixel that the grid colours on an empty canvas has that colour in the
    returned image, whatever the frame;
  \<^item> for an all-black frame and a canvas of at least 20 rows the canvas after the trace
    loop is exactly this: in row \<open>canvas_height - 20\<close> every column \<open>0 \<le> x < size[0]\<close>
    holds the tint \<open>(16 n, 80 n, 16 n)\<close>, saturated at 255, of the \<open>n\<close> samples of its
    frame column, and every other pixel is black. The 0% grid line is drawn afterwards
    over that whole row, so the returned image is the image of the grid alone, and every
    pixel of the row \<open>canvas_height - 20\<close> has three equal channels in it.
\<close>

theorem waveform_trace_under_grid:
  assumes "rounding fl" and "rounding fd"
    and "image_to_array fl img = Inr log_image"
    and "arr_shape log_image = [h, w, c]" and "3 \<le> c" and "1 \<le> w" and "w \<le> 16777216"
    and "0 \<le> W" and "W \<le> 8388608" and "0 \<le> H" and "1 \<le> H \<or> W = 0"
  shows "\<exists>traced pixels.
           waveform_trace fl fd log_image (W, H) = Inr traced \<and>
           create_waveform fl fd img (W, H) = Inr ((H, W), pixels) \<and>
           (\<forall>pos. pixels pos = to_unit_range fl (draw_waveform_grid fd (W, H) traced pos)) \<and>
           (\<forall>pos. draw_waveform_grid fd (W, H) (\<lambda>p. (0, 0, 0)) pos \<noteq> (0, 0, 0) \<longrightarrow>
                  pixels pos = to_unit_range fl (draw_waveform_grid fd (W, H) (\<lambda>p. (0, 0, 0)) pos)) \<and>
           (20 \<le> H \<and> H \<le> 16777216 \<and> all_zero log_image \<longrightarrow>
              traced = traced_row (H - 20) 0 W (length (py_range_step h (max 1 (h div 200)))) \<and>
              (\<forall>pos. pixels pos = to_unit_range fl (draw_waveform_grid fd (W, H) (\<lambda>p. (0, 0, 0)) pos)) \<and>
              (\<forall>col. \<exists>v. pixels (H - 20, col) = (v, v, v)))"
proof -
  have "\<exists>traced. waveform_trace fl fd log_image (W, H) = Inr traced"
  proof (cases "W = 0")
    case True
    then show ?thesis by (simp add: waveform_trace_empty_canvas [OF assms(4,5)])
  next
    case False
    with assms(11) have "1 \<le> H" by simp
    from waveform_trace_ok [OF assms(2,4,5,6,7,8,9) this] show ?thesis .
  qed
  then obtain traced where tr: "waveform_trace fl fd log_image (W, H) = Inr traced" by blast
  define pixels where "pixels = (\<lambda>pos. to_unit_range fl (draw_waveform_grid fd (W, H) traced pos))"
  have z: "np_zeros (H, W) = Inr (H, W)"
    using assms(8,10) by (simp add: np_zeros_def)
  have cw: "create_waveform fl fd img (W, H) = Inr ((H, W), pixels)"
    by (simp add: create_waveform_def assms(3) z tr pixels_def)
  have grid: "pixels pos = to_unit_range fl (draw_waveform_grid fd (W, H) (\<lambda>p. (0, 0, 0)) pos)"
    if "draw_waveform_grid fd (W, H) (\<lambda>p. (0, 0, 0)) pos \<noteq> (0, 0, 0)" for pos
    using grid_present [OF that, of traced] by (simp only: pixels_def)
  have black: "traced = traced_row (H - 20) 0 W (length (py_range_step h (max 1 (h div 200))))"
    if "20 \<le> H \<and> H \<le> 16777216 \<and> all_zero log_image"
  proof -
    from that have H: "20 \<le> H" "H \<le> 16777216" and zero: "all_zero log_image" by simp_all
    from waveform_trace_black [OF assms(1,2,4,5,6,7,8,9) H zero] tr show ?thesis by simp
  qed
  have hidden: "pixels pos = to_unit_range fl (draw_waveform_grid fd (W, H) (\<lambda>p. (0, 0, 0)) pos)"
    if b: "20 \<le> H \<and> H \<le> 16777216 \<and> all_zero log_image" for pos
  proof -
    from b have H: "20 \<le> H" "H \<le> 16777216" by simp_all
    have "draw_waveform_grid fd (W, H) traced = draw_waveform_grid fd (W, H) (\<lambda>p. (0, 0, 0))"
      by (rule grid_hides_zero_row [OF assms(2) H]) (simp add: black [OF b] traced_row_off_row)
    then show ?thesis by (simp only: pixels_def)
  qed
  have gray: "\<exists>v. pixels (H - 20, col) = (v, v, v)"
    if b: "20 \<le> H \<and> H \<le> 16777216 \<and> all_zero log_image" for col
  proof -
    from b have H: "20 \<le> H" "H \<le> 16777216" by simp_all
    show ?thesis
      unfolding pixels_def
      by (rule gray_to_unit_range) (rule draw_waveform_grid_zero_row_gray [OF assms(2) H])
  qed
  show ?thesis
  proof (rule exI [of _ traced], rule exI [of _ pixels], intro conjI allI impI)
    show "waveform_trace fl fd log_image (W, H) = Inr traced" by (rule tr)
  next
    show "create_waveform fl fd img (W, H) = Inr ((H, W), pixels)" by (rule cw)
  next
    fix pos
    show "pixels pos = to_unit_range fl (draw_waveform_grid fd (W, H) traced pos)"
      by (simp only: pixels_def)
  next
    fix pos
    assume "draw_waveform_grid fd (W, H) (\<lambda>p. (0, 0, 0)) pos \<noteq> (0, 0, 0)"
    then show "pixels pos = to_unit_range fl (draw_waveform_grid fd (W, H) (\<lambda>p. (0, 0, 0)) pos)"
      by (rule grid)
  next
    assume "20 \<le> H \<and> H \<le> 16777216 \<and> all_zero log_image"
    then show "traced = traced_row (H - 20) 0 W (length (py_range_step h (max 1 (h div 200))))"
      by (rule black)
  next
    fix pos
    assume "20 \<le> H \<and> H \<le> 16777216 \<and> all_zero log_image"
    then show "pixels pos = to_unit_range fl (draw_waveform_grid fd (W, H) (\<lambda>p. (0, 0, 0)) pos)"
      by (rule hidden)
  next
    fix col
    assume "20 \<le> H \<and> H \<le> 16777216 \<and> all_zero log_image"
    then show "\<exists>v. pixels (H - 20, col) = (v, v, v)"
      by (rule gray)
  qed
qed

lemma black_pixel_array:
  "rounding fl \<Longrightarrow> image_to_array fl (Ndarray (const_array [1, 1, 3] 0)) = Inr (const_array [1, 1, 3] 0)"
  by (rule unit_array_unchanged)
     (simp_all add: const_array_def unit_float_array_def rounding_zero)

lemma black_pixel_all_zero: "all_zero (const_array [1, 1, 3] 0)"
  by (simp add: all_zero_def const_array_def)

text \<open>
  Claim C8, amended, for a black frame of one pixel on the default canvas \<open>(480, 540)\<close>
  with exact arithmetic: the trace loop tints the 480 columns of row 520 once, the grid
  pixel \<open>(20, 0)\<close> is in the returned image, and the pixel \<open>(520, 0)\<close> of the returned image
  is the one of the grid alone, with three equal channels.
\<close>

theorem waveform_trace_under_grid_witness:
  "rounding (\<lambda>x. x) \<and>
   image_to_array (\<lambda>x. x) (Ndarray (const_array [1, 1, 3] 0)) = Inr (const_array [1, 1, 3] 0) \<and>
   arr_shape (const_array [1, 1, 3] 0) = [1, 1, 3] \<and> all_zero (const_array [1, 1, 3] 0) \<and>
   draw_waveform_grid (\<lambda>x. x) (480, 540) (\<lambda>p. (0, 0, 0)) (20, 0) \<noteq> (0, 0, 0) \<and>
   waveform_trace (\<lambda>x. x) (\<lambda>x. x) (const_array [1, 1, 3] 0) (480, 540)
     = Inr (traced_row (540 - 20) 0 480 (length (py_range_step 1 (max 1 (1 div 200))))) \<and>
   length (py_range_step 1 (max 1 (1 div 200))) = 1 \<and>
   (\<exists>pixels. create_waveform (\<lambda>x. x) (\<lambda>x. x) (Ndarray (const_array [1, 1, 3] 0)) (480, 540)
        = Inr ((540, 480), pixels) \<and>
      pixels (20, 0) = to_unit_range (\<lambda>x. x) (draw_waveform_grid (\<lambda>x. x) (480, 540) (\<lambda>p. (0, 0, 0)) (20, 0)) \<and>
      pixels (540 - 20, 0)
        = to_unit_range (\<lambda>x. x) (draw_waveform_grid (\<lambda>x. x) (480, 540) (\<lambda>p. (0, 0, 0)) (540 - 20, 0)) \<and>
      (\<exists>v. pixels (540 - 20, 0) = (v, v, v)))"
proof -
  have r: "rounding (\<lambda>x. x)" by (rule rounding_id)
  have conv: "image_to_array (\<lambda>x. x) (Ndarray (const_array [1, 1, 3] 0)) = Inr (const_array [1, 1, 3] 0)"
    by (rule black_pixel_array [OF r])
  have sh: "arr_shape (const_array [1, 1, 3] 0) = [1, 1, 3]" by (simp add: const_array_def)
  have z: "all_zero (const_array [1, 1, 3] 0)" by (rule black_pixel_all_zero)
  have n: "(3::nat) \<le> 3" "(1::nat) \<le> 1" "(1::nat) \<le> 16777216" "(0::int) \<le> 480"
    "(480::int) \<le> 8388608" "(0::int) \<le> 540" "(1::int) \<le> 540 \<or> (480::int) = 0"
    by simp_all
  have b: "(20::int) \<le> 540 \<and> (540::int) \<le> 16777216 \<and> all_zero (const_array [1, 1, 3] 0)"
    using z by simp
  have g: "draw_waveform_grid (\<lambda>x. x) (480, 540) (\<lambda>p. (0, 0, 0)) (20, 0) \<noteq> (0, 0, 0)"
    by (simp add: draw_waveform_grid_def grid_markers_def grid_row_step_def grid_column_step_def
        set_rows_def set_column_def slice_bound_def py_int_def Let_def)
  have l: "length (py_range_step 1 (max 1 (1 div 200))) = 1"
    by (simp add: py_range_step_def)
  from waveform_trace_under_grid [OF r r conv sh n] obtain traced pixels where
    t: "waveform_trace (\<lambda>x. x) (\<lambda>x. x) (const_array [1, 1, 3] 0) (480, 540) = Inr traced"
    and c: "create_waveform (\<lambda>x. x) (\<lambda>x. x) (Ndarray (const_array [1, 1, 3] 0)) (480, 540)
        = Inr ((540, 480), pixels)"
    and p: "\<forall>pos. draw_waveform_grid (\<lambda>x. x) (480, 540) (\<lambda>p. (0, 0, 0)) pos \<noteq> (0, 0, 0) \<longrightarrow>
        pixels pos = to_unit_range (\<lambda>x. x) (draw_waveform_grid (\<lambda>x. x) (480, 540) (\<lambda>p. (0, 0, 0)) pos)"
    and k: "(20::int) \<le> 540 \<and> (540::int) \<le> 16777216 \<and> all_zero (const_array [1, 1, 3] 0) \<longrightarrow>
        traced = traced_row (540 - 20) 0 480 (length (py_range_step 1 (max 1 (1 div 200)))) \<and>
        (\<forall>pos. pixels pos = to_unit_range (\<lambda>x. x) (draw_waveform_grid (\<lambda>x. x) (480, 540) (\<lambda>p. (0, 0, 0)) pos)) \<and>
        (\<forall>col. \<exists>v. pixels (540 - 20, col) = (v, v, v))"
    by blast
  from k b have k1: "traced = traced_row (540 - 20) 0 480 (length (py_range_step 1 (max 1 (1 div 200))))"
    and k2: "pixels (540 - 20, 0)
        = to_unit_range (\<lambda>x. x) (draw_waveform_grid (\<lambda>x. x) (480, 540) (\<lambda>p. (0, 0, 0)) (540 - 20, 0))"
    and k3: "\<exists>v. pixels (540 - 20, 0) = (v, v, v)"
    by blast+
  from p g have p1: "pixels (20, 0)
      = to_unit_range (\<lambda>x. x) (draw_waveform_grid (\<lambda>x. x) (480, 540) (\<lambda>p. (0, 0, 0)) (20, 0))"
    by blast
  have e: "\<exists>pixels. create_waveform (\<lambda>x. x) (\<lambda>x. x) (Ndarray (const_array [1, 1, 3] 0)) (480, 540)
        = Inr ((540, 480), pixels) \<and>
      pixels (20, 0) = to_unit_range (\<lambda>x. x) (draw_waveform_grid (\<lambda>x. x) (480, 540) (\<lambda>p. (0, 0, 0)) (20, 0)) \<and>
      pixels (540 - 20, 0)
        = to_unit_range (\<lambda>x. x) (draw_waveform_grid (\<lambda>x. x) (480, 540) (\<lambda>p. (0, 0, 0)) (540 - 20, 0)) \<and>
      (\<exists>v. pixels (540 - 20, 0) = (v, v, v))"
    using c p1 k2 k3 by (intro exI [of _ pixels] conjI)
  have t': "waveform_trace (\<lambda>x. x) (\<lambda>x. x) (const_array [1, 1, 3] 0) (480, 540)
     = Inr (traced_row (540 - 20) 0 480 (length (py_range_step 1 (max 1 (1 div 200)))))"
    using t k1 by (simp only:)
  from r conv sh z g t' l e show ?thesis by (intro conjI)
qed

lemma black_pixel_waveform:
  assumes "rounding fl" "rounding fd"
  shows "\<exists>traced. create_waveform fl fd (Ndarray (const_array [1, 1, 3] 0)) (480, 540)
           = Inr ((540, 480), \<lambda>pos. to_unit_range fl (draw_waveform_grid fd (480, 540) traced pos))"
proof -
  have sh: "arr_shape (const_array [1, 1, 3] 0) = [1, 1, 3]" by (simp add: const_array_def)
  from waveform_trace_ok [OF assms(2) sh, of 480 540 fl] obtain traced
    where tr: "waveform_trace fl fd (const_array [1, 1, 3] 0) (480, 540) = Inr traced"
    by auto
  have z: "np_zeros (540, 480) = Inr (540, 480)" by (simp add: np_zeros_def)
  have "create_waveform fl fd (Ndarray (const_array [1, 1, 3] 0)) (480, 540)
           = Inr ((540, 480), \<lambda>pos. to_unit_range fl (draw_waveform_grid fd (480, 540) traced pos))"
    unfolding create_waveform_def black_pixel_array [OF assms(1)] sum.case snd_conv fst_conv z tr
    by (rule refl)
  then show ?thesis by blast
qed

lemma linspace_first:
  assumes "2 \<le> n"
  shows "\<exists>rest. np_linspace_int (\<lambda>x. x) stop n = 0 # rest"
proof -
  from assms have "[0 ..< n] = 0 # [Suc 0 ..< n]" by (intro upt_conv_Cons) simp
  with assms show ?thesis by (simp add: np_linspace_int_def)
qed

lemma waveform_trace_no_row:
  assumes sh: "arr_shape a = [h, w, c]" and c: "3 \<le> c" and h: "1 \<le> h" and w: "1 \<le> w"
    and W: "2 \<le> W"
  shows "waveform_trace fl (\<lambda>x. x) a (W, 0) = Inl IndexError"
proof -
  from W have "2 \<le> nat W" by simp
  from linspace_first [OF this, of "int w - 1"] obtain rest
    where xs: "np_linspace_int (\<lambda>x. x) (int w - 1) (nat W) = 0 # rest" by blast
  have wf: "width (frame_of a) = w" "height (frame_of a) = h" by (simp_all add: frame_of_def sh)
  have col: "np_index (int (width (frame_of a))) 0 = Inr 0"
    using w by (simp add: np_index_def wf)
  define s where "s = max 1 (h div 200)"
  have "1 \<le> s" by (simp add: s_def)
  with h have "s \<le> h + s - 1" by linarith
  with \<open>1 \<le> s\<close> have "0 < (h + s - 1) div s" by (simp add: div_greater_zero_iff)
  then have "0 < (h + max 1 (h div 200) - 1) div max 1 (h div 200)"
    by (simp only: s_def)
  then have "[0 ..< (h + max 1 (h div 200) - 1) div max 1 (h div 200)]
      = 0 # [Suc 0 ..< (h + max 1 (h div 200) - 1) div max 1 (h div 200)]"
    by (rule upt_conv_Cons)
  then obtain l ls where sl: "sampled_luma fl (frame_of a) 0 = l # ls"
    by (simp add: sampled_luma_def py_range_step_def wf Let_def)
  have tc: "trace_column fl (W, 0) 0 (l # ls) cv = Inl IndexError" for cv
    by (simp add: np_index_def waveform_y_position_def Let_def)
  have "trace_columns fl (frame_of a) (W, 0) (enumerate 0 (0 # rest)) (\<lambda>pos. (0, 0, 0)) = Inl IndexError"
    using W by (simp add: col sl tc del: trace_column.simps)
  then show ?thesis
    using c by (simp add: waveform_trace_def sh Let_def xs)
qed

text \<open>
  Claim C8 says that for an all-black frame the green-tinted trace pixel of every column
  lies in the row \<open>canvas_height - 20\<close> of the output. The grid is drawn after the trace
  and its 0% line overwrites that row: for a black frame of one pixel on the default
  canvas \<open>(480, 540)\<close> the returned pixel at row 520, column 0 is the grid grey \<open>48/255\<close> in
  all three channels with exact arithmetic, and under no rounding is its green channel
  above its red one. The claim also promises an image for every frame and every canvas
  size: a frame without a row makes \<open>img_array.max()\<close> raise \<open>ValueError\<close>, and a canvas
  with columns and no row makes the trace loop raise \<open>IndexError\<close>.
\<close>

theorem black_trace_row_shows_grid:
  "waveform_pixel (\<lambda>x. x) (\<lambda>x. x) (Ndarray (const_array [1, 1, 3] 0)) (480, 540) (540 - 20, 0)
     = Some (48 / 255, 48 / 255, 48 / 255) \<and>
   \<not> (\<exists>fl fd r g b. rounding fl \<and> rounding fd \<and>
         waveform_pixel fl fd (Ndarray (const_array [1, 1, 3] 0)) (480, 540) (540 - 20, 0)
           = Some (r, g, b) \<and> r < g) \<and>
   (\<forall>fl fd. create_waveform fl fd (Ndarray (const_array [0, 4, 3] 0)) (480, 540) = Inl ValueError) \<and>
   create_waveform (\<lambda>x. x) (\<lambda>x. x) (Ndarray (const_array [1, 1, 3] 0)) (480, 0) = Inl IndexError"
proof (intro conjI)
  have g: "draw_waveform_grid (\<lambda>x. x) (480, 540) cv (520, 0) = (48, 48, 48)" for cv
    by (simp add: draw_waveform_grid_def grid_markers_def grid_row_step_def grid_column_step_def
        set_rows_def set_column_def slice_bound_def py_int_def Let_def)
  from black_pixel_waveform [OF rounding_id rounding_id] obtain traced where
    "create_waveform (\<lambda>x. x) (\<lambda>x. x) (Ndarray (const_array [1, 1, 3] 0)) (480, 540)
       = Inr ((540, 480), \<lambda>pos. to_unit_range (\<lambda>x. x) (draw_waveform_grid (\<lambda>x. x) (480, 540) traced pos))"
    by blast
  then show "waveform_pixel (\<lambda>x. x) (\<lambda>x. x) (Ndarray (const_array [1, 1, 3] 0)) (480, 540) (540 - 20, 0)
     = Some (48 / 255, 48 / 255, 48 / 255)"
    by (simp add: waveform_pixel_def g to_unit_range_def)
next
  show "\<not> (\<exists>fl fd r g b. rounding fl \<and> rounding fd \<and>
         waveform_pixel fl fd (Ndarray (const_array [1, 1, 3] 0)) (480, 540) (540 - 20, 0)
           = Some (r, g, b) \<and> r < g)"
  proof
    assume "\<exists>fl fd r g b. rounding fl \<and> rounding fd \<and>
         waveform_pixel fl fd (Ndarray (const_array [1, 1, 3] 0)) (480, 540) (540 - 20, 0)
           = Some (r, g, b) \<and> r < g"
    then obtain fl fd r g b where r: "rounding fl" "rounding fd"
      and px: "waveform_pixel fl fd (Ndarray (const_array [1, 1, 3] 0)) (480, 540) (540 - 20, 0)
           = Some (r, g, b)"
      and lt: "r < g"
      by blast
    from black_pixel_waveform [OF r] obtain traced where cw:
      "create_waveform fl fd (Ndarray (const_array [1, 1, 3] 0)) (480, 540)
         = Inr ((540, 480), \<lambda>pos. to_unit_range fl (draw_waveform_grid fd (480, 540) traced pos))"
      by blast
    have "gray_pix (draw_waveform_grid fd (480, 540) traced (540 - 20, 0))"
      by (rule draw_waveform_grid_zero_row_gray [OF r(2)]) simp_all
    then obtain v where "to_unit_range fl (draw_waveform_grid fd (480, 540) traced (540 - 20, 0)) = (v, v, v)"
      using gray_to_unit_range by blast
    with px cw have "r = g" by (simp add: waveform_pixel_def)
    with lt show False by simp
  qed
next
  show "\<forall>fl fd. create_waveform fl fd (Ndarray (const_array [0, 4, 3] 0)) (480, 540) = Inl ValueError"
    by (simp add: create_waveform_def image_to_array_def array_max_def map_array_def const_array_def)
next
  have sh: "arr_shape (const_array [1, 1, 3] 0) = [1, 1, 3]" by (simp add: const_array_def)
  have tr: "waveform_trace (\<lambda>x. x) (\<lambda>x. x) (const_array [1, 1, 3] 0) (480, 0) = Inl IndexError"
    by (rule waveform_trace_no_row [OF sh]) simp_all
  have z: "np_zeros (0, 480) = Inr (0, 480)" by (simp add: np_zeros_def)
  show "create_waveform (\<lambda>x. x) (\<lambda>x. x) (Ndarray (const_array [1, 1, 3] 0)) (480, 0) = Inl IndexError"
    unfolding create_waveform_def black_pixel_array [OF rounding_id] sum.case snd_conv fst_conv z tr
    by (rule refl)
qed

end
